theory Spec2Isabelle
  imports Main "HOL-Library.Multiset" "HOL-Library.Word"
begin

section \<open>Data model of \<open>cmd/backup-manager/app/clean/manager.go\<close>\<close>

text \<open>
  Modelled from the spec: the declaration of \<open>v1alpha1.BackupMode\<close> is not among the
  sources; the spec gives the mode as one of \<open>Normal\<close> and \<open>VolumeSnapshot\<close>, and the
  code only ever compares it with \<open>BackupModeVolumeSnapshot\<close>.
\<close>

datatype BackupMode = Normal | VolumeSnapshot

text \<open>The tool descriptor (\<open>Spec.BR\<close>, a pointer) and the storage-location descriptor
  (\<open>Spec.StorageProvider\<close>) are opaque to this file: it only tests the first for \<open>nil\<close>
  and hands the second on.\<close>

datatype BRConfig = BRConfig string

datatype StorageProvider = StorageProvider string

text \<open>The fields of \<open>v1alpha1.Backup\<close> that the file reads. \<open>Status.TimeStarted\<close> is an
  instant; \<open>Before\<close> on two instants is \<open><\<close>.\<close>

record Backup =
  Namespace :: string
  Name :: string
  Spec_Mode :: BackupMode
  Spec_BR :: "BRConfig option"
  Spec_StorageProvider :: StorageProvider
  Status_BackupPath :: string
  Status_TimeStarted :: int

datatype BackupConditionType = BackupFailed | BackupClean | BackupComplete

datatype ConditionStatus = ConditionTrue | ConditionFalse | ConditionUnknown

record BackupCondition =
  Type :: BackupConditionType
  Status :: ConditionStatus
  Reason :: string
  Message :: string

text \<open>\<open>controller.BackupUpdateStatus\<close>: the two pointer fields this file sets; every other
  field of the struct stays \<open>nil\<close>.\<close>

record BackupUpdateStatus =
  BackupSize :: "64 word option"
  BackupSizeReadable :: "string option"

text \<open>A Go \<open>error\<close>: a plain error known by its text, or the aggregate that
  \<open>errorutils.NewAggregate\<close> builds.\<close>

datatype error = Err string | Aggregate "error list"

text \<open>A run-time panic: the only operation of the file that can raise one is the slice
  expression \<open>bks[i+1:]\<close>.\<close>

datatype panic = SliceBoundsOutOfRange

text \<open>The log lines of the file, one constructor for each \<open>klog\<close> call site.\<close>

datatype log_entry =
    Errorf_backup_path_is_empty
  | Errorf_next_backup_is_nil
  | Errorf_delete_backup_failure string
  | Errorf_clean_failed string error
  | Infof_clean_success string
  | Warningf_failed_to_parse_BackupSize "64 word" error

text \<open>What a run does to the outside, in order: log lines, and the calls of the
  collaborators that delete, measure or write, each with its arguments and with what it
  returned.\<close>

datatype event =
    Klog log_entry
  | Call_cleanBackupMetaWithVolSnapshots Backup "error option"
  | Call_CleanBRRemoteBackupData Backup "error option"
  | Call_cleanRemoteBackupData string "string list" "error option"
  | Call_CalcVolSnapBackupSize StorageProvider "64 word" "error option"
  | Call_Update Backup BackupCondition "BackupUpdateStatus option" "error option"

text \<open>
  Everything the file calls but does not define, over an abstract outside world \<open>'w\<close>:
  the lister and the status updater (fields of \<open>Manager\<close>), the three deletion methods of
  \<open>Manager\<close> defined in other files, \<open>Manager\<close>'s \<open>String\<close> rendering, and the package
  functions \<open>util.GetOptions\<close>, \<open>util.CalcVolSnapBackupSize\<close>, \<open>humanize.Bytes\<close>,
  \<open>sort.Slice\<close> and the \<open>Error\<close> method of errors. The lister only reads the world; the
  others may change it.
\<close>

record 'w Manager =
  backupLister_List :: "string \<Rightarrow> 'w \<Rightarrow> error + Backup list"
  StatusUpdater_Update ::
    "Backup \<Rightarrow> BackupCondition \<Rightarrow> BackupUpdateStatus option \<Rightarrow> 'w \<Rightarrow> error option \<times> 'w"
  cleanBackupMetaWithVolSnapshots :: "Backup \<Rightarrow> 'w \<Rightarrow> error option \<times> 'w"
  CleanBRRemoteBackupData :: "Backup \<Rightarrow> 'w \<Rightarrow> error option \<times> 'w"
  cleanRemoteBackupData :: "string \<Rightarrow> string list \<Rightarrow> 'w \<Rightarrow> error option \<times> 'w"
  String :: string
  GetOptions :: "StorageProvider \<Rightarrow> string list"
  CalcVolSnapBackupSize :: "StorageProvider \<Rightarrow> 'w \<Rightarrow> (64 word \<times> error option) \<times> 'w"
  humanize_Bytes :: "64 word \<Rightarrow> string"
  sort_Slice :: "(Backup \<Rightarrow> Backup \<Rightarrow> bool) \<Rightarrow> Backup list \<Rightarrow> Backup list"
  Error :: "error \<Rightarrow> string"

record 'w state =
  world :: 'w
  trace :: "event list"

section \<open>The chain navigator\<close>

text \<open>\<open>getVolumeSnapshotBackup\<close>: the first volume-snapshot backup of a list, \<open>nil\<close> at
  the end of the list.\<close>

fun getVolumeSnapshotBackup :: "Backup list \<Rightarrow> Backup option" where
  "getVolumeSnapshotBackup [] = None"
| "getVolumeSnapshotBackup (bk # backups) =
     (if Spec_Mode bk = VolumeSnapshot then Some bk else getVolumeSnapshotBackup backups)"

text \<open>The slice expression \<open>s[lo:]\<close>: Go panics when \<open>lo\<close> exceeds the length.\<close>

definition slice_from :: "'a list \<Rightarrow> nat \<Rightarrow> panic + 'a list" where
  "slice_from s lo = (if lo \<le> length s then Inr (drop lo s) else Inl SliceBoundsOutOfRange)"

text \<open>The comparison handed to \<open>sort.Slice\<close>.\<close>

definition TimeStarted_Before :: "Backup \<Rightarrow> Backup \<Rightarrow> bool" where
  "TimeStarted_Before a b = (Status_TimeStarted a < Status_TimeStarted b)"

text \<open>The loop \<open>for i, bk := range bks\<close> of \<open>getNextBackup\<close>, from index \<open>i\<close> on.\<close>

function getNextBackup_range :: "Backup \<Rightarrow> Backup list \<Rightarrow> nat \<Rightarrow> panic + Backup option" where
  "getNextBackup_range backup bks i =
     (if i < length bks then
        (if Name backup = Name (bks ! i) then
           (case slice_from bks (i + 1) of
              Inl p \<Rightarrow> Inl p
            | Inr rest \<Rightarrow> Inr (getVolumeSnapshotBackup rest))
         else getNextBackup_range backup bks (i + 1))
      else Inr None)"
  by pat_completeness auto
termination
  by (relation "measure (\<lambda>(backup, bks, i). length bks - i)") auto

declare getNextBackup_range.simps [simp del]

definition getNextBackup :: "'w Manager \<Rightarrow> Backup \<Rightarrow> 'w \<Rightarrow> panic + Backup option" where
  "getNextBackup bm backup w =
     (case backupLister_List bm (Namespace backup) w of
        Inl err \<Rightarrow> Inr None
      | Inr bks \<Rightarrow> getNextBackup_range backup (sort_Slice bm TimeStarted_Before bks) 0)"

text \<open>What \<open>sort.Slice\<close> promises for this comparison: the result is a rearrangement of
  the slice in which no element is before an earlier one. It promises nothing about the
  relative order of records with equal start times.\<close>

definition sort_Slice_ok :: "'w Manager \<Rightarrow> bool" where
  "sort_Slice_ok bm =
     (\<forall>bks. mset (sort_Slice bm TimeStarted_Before bks) = mset bks \<and>
            sorted_wrt (\<lambda>a b. \<not> TimeStarted_Before b a) (sort_Slice bm TimeStarted_Before bks))"

text \<open>The insertion sort that Go's \<open>sort\<close> package runs on short slices (at most 12
  elements): each element in turn moves left while it is less than its left neighbour.
  The sorted prefix is kept back to front.\<close>

fun insertionSort_insert :: "('a \<Rightarrow> 'a \<Rightarrow> bool) \<Rightarrow> 'a \<Rightarrow> 'a list \<Rightarrow> 'a list" where
  "insertionSort_insert lt x [] = [x]"
| "insertionSort_insert lt x (y # ys) =
     (if lt x y then y # insertionSort_insert lt x ys else x # y # ys)"

definition insertionSort :: "('a \<Rightarrow> 'a \<Rightarrow> bool) \<Rightarrow> 'a list \<Rightarrow> 'a list" where
  "insertionSort lt xs = rev (foldl (\<lambda>acc x. insertionSort_insert lt x acc) [] xs)"

text \<open>The navigator in the spec's words: sort by start time, find the target by name,
  and take the first volume-snapshot record strictly after it.\<close>

definition findSuccessor :: "Backup \<Rightarrow> Backup list \<Rightarrow> Backup option" where
  "findSuccessor target sorted_bks =
     (case dropWhile (\<lambda>bk. Name bk \<noteq> Name target) sorted_bks of
        [] \<Rightarrow> None
      | t # later \<Rightarrow> find (\<lambda>bk. Spec_Mode bk = VolumeSnapshot) later)"

section \<open>Cleanup and outcome reporting\<close>

definition klog :: "log_entry \<Rightarrow> 'w state \<Rightarrow> 'w state" where
  "klog l s = s\<lparr>trace := trace s @ [Klog l]\<rparr>"

text \<open>A call of a collaborator: it runs on the world and the trace records the call and
  its result.\<close>

definition call :: "('a \<Rightarrow> event) \<Rightarrow> ('w \<Rightarrow> 'a \<times> 'w) \<Rightarrow> 'w state \<Rightarrow> 'a \<times> 'w state" where
  "call ev f s = (case f (world s) of (r, w) \<Rightarrow> (r, \<lparr>world = w, trace = trace s @ [ev r]\<rparr>))"

definition Update ::
  "'w Manager \<Rightarrow> Backup \<Rightarrow> BackupCondition \<Rightarrow> BackupUpdateStatus option \<Rightarrow> 'w state
     \<Rightarrow> error option \<times> 'w state" where
  "Update bm backup condition newStatus =
     call (Call_Update backup condition newStatus)
       (StatusUpdater_Update bm backup condition newStatus)"

text \<open>\<open>errorutils.NewAggregate\<close> of apimachinery: it drops the \<open>nil\<close> entries and
  returns \<open>nil\<close> when nothing is left.\<close>

definition NewAggregate :: "error option list \<Rightarrow> error option" where
  "NewAggregate errlist =
     (case List.map_filter (\<lambda>e. e) errlist of [] \<Rightarrow> None | errs \<Rightarrow> Some (Aggregate errs))"

text \<open>\<open>updateVolumeSnapshotBackupSize\<close>. The size is an \<open>int64\<close>; the conversion
  \<open>uint64(backupSize)\<close> keeps its 64 bits.\<close>

definition updateVolumeSnapshotBackupSize ::
  "'w Manager \<Rightarrow> Backup \<Rightarrow> 'w state \<Rightarrow> error option \<times> 'w state" where
  "updateVolumeSnapshotBackupSize bm backup s =
     (case call (\<lambda>(sz, e). Call_CalcVolSnapBackupSize (Spec_StorageProvider backup) sz e)
             (CalcVolSnapBackupSize bm (Spec_StorageProvider backup)) s of
        ((backupSize, err), s1) \<Rightarrow>
          (let s2 = (case err of
                       Some e \<Rightarrow> klog (Warningf_failed_to_parse_BackupSize backupSize e) s1
                     | None \<Rightarrow> s1);
               backupSizeReadable = humanize_Bytes bm backupSize;
               updateStatus = \<lparr>BackupSize = Some backupSize,
                               BackupSizeReadable = Some backupSizeReadable\<rparr>
           in Update bm backup
                \<lparr>Type = BackupComplete, Status = ConditionTrue, Reason = [], Message = []\<rparr>
                (Some updateStatus) s2))"

text \<open>\<open>performCleanBackup\<close>. The inner \<open>case\<close> is the branch on the mode (lines 80 to
  104), which leaves the deletion's error in \<open>err\<close>; a panic of \<open>getNextBackup\<close> would
  leave the function at once.\<close>

definition performCleanBackup ::
  "'w Manager \<Rightarrow> Backup \<Rightarrow> 'w state \<Rightarrow> (panic + error option) \<times> 'w state" where
  "performCleanBackup bm backup s =
     (if Status_BackupPath backup = [] then
        (case Update bm backup
                \<lparr>Type = BackupFailed, Status = ConditionTrue, Reason = ''BackupPathIsEmpty'',
                 Message = ''the cluster '' @ String bm @ '' backup path is empty''\<rparr>
                None (klog Errorf_backup_path_is_empty s) of
           (uerr, s') \<Rightarrow> (Inr uerr, s'))
      else
        (case
           (if Spec_Mode backup = VolumeSnapshot then
              (case getNextBackup bm backup (world s) of
                 Inl p \<Rightarrow> Inl p
               | Inr nextNackup \<Rightarrow>
                   (let s1 = (if nextNackup = None then klog Errorf_next_backup_is_nil s else s);
                        (err, s2) = call (Call_cleanBackupMetaWithVolSnapshots backup)
                                      (cleanBackupMetaWithVolSnapshots bm backup) s1;
                        s3 = (if err \<noteq> None
                              then klog (Errorf_delete_backup_failure (Name backup)) s2 else s2);
                        s4 = (case nextNackup of
                                Some n \<Rightarrow> snd (updateVolumeSnapshotBackupSize bm n s3)
                              | None \<Rightarrow> s3)
                    in Inr (err, s4)))
            else if Spec_BR backup \<noteq> None then
              Inr (call (Call_CleanBRRemoteBackupData backup)
                     (CleanBRRemoteBackupData bm backup) s)
            else
              (let opts = GetOptions bm (Spec_StorageProvider backup)
               in Inr (call (Call_cleanRemoteBackupData (Status_BackupPath backup) opts)
                         (cleanRemoteBackupData bm (Status_BackupPath backup) opts) s)))
         of
           Inl p \<Rightarrow> (Inl p, s)
         | Inr (Some err, s5) \<Rightarrow>
             (case Update bm backup
                     \<lparr>Type = BackupFailed, Status = ConditionTrue,
                      Reason = ''CleanBackupDataFailed'', Message = Error bm err\<rparr>
                     None (klog (Errorf_clean_failed (Status_BackupPath backup) err) s5) of
                (uerr, s') \<Rightarrow> (Inr (NewAggregate [Some err, uerr]), s'))
         | Inr (None, s5) \<Rightarrow>
             (case Update bm backup
                     \<lparr>Type = BackupClean, Status = ConditionTrue, Reason = [], Message = []\<rparr>
                     None (klog (Infof_clean_success (Status_BackupPath backup)) s5) of
                (uerr, s') \<Rightarrow> (Inr uerr, s'))))"

text \<open>A run of the cleanup from a world, with nothing traced yet.\<close>

definition start :: "'w \<Rightarrow> 'w state" where
  "start w = \<lparr>world = w, trace = []\<rparr>"

subsection \<open>Reading a trace\<close>

text \<open>The status writes of a trace, in order: the record, the condition, the size update
  and the writer's result.\<close>

fun update_of :: "event \<Rightarrow> (Backup \<times> BackupCondition \<times> BackupUpdateStatus option \<times> error option) list" where
  "update_of (Call_Update b c u r) = [(b, c, u, r)]"
| "update_of _ = []"

definition updates :: "event list \<Rightarrow> (Backup \<times> BackupCondition \<times> BackupUpdateStatus option \<times> error option) list" where
  "updates tr = concat (map update_of tr)"

text \<open>The calls of the three deletion primitives in a trace.\<close>

fun is_deletion :: "event \<Rightarrow> bool" where
  "is_deletion (Call_cleanBackupMetaWithVolSnapshots b r) = True"
| "is_deletion (Call_CleanBRRemoteBackupData b r) = True"
| "is_deletion (Call_cleanRemoteBackupData p opts r) = True"
| "is_deletion _ = False"

definition deletions :: "event list \<Rightarrow> event list" where
  "deletions tr = filter is_deletion tr"

fun log_of :: "event \<Rightarrow> log_entry list" where
  "log_of (Klog l) = [l]"
| "log_of _ = []"

definition logs :: "event list \<Rightarrow> log_entry list" where
  "logs tr = concat (map log_of tr)"

text \<open>The deletion primitive that the branch on the mode and on the tool descriptor
  selects, in the spec's words.\<close>

definition selected_deletion :: "'w Manager \<Rightarrow> Backup \<Rightarrow> 'w \<Rightarrow> error option \<times> 'w" where
  "selected_deletion bm backup =
     (if Spec_Mode backup = VolumeSnapshot then cleanBackupMetaWithVolSnapshots bm backup
      else if Spec_BR backup \<noteq> None then CleanBRRemoteBackupData bm backup
      else cleanRemoteBackupData bm (Status_BackupPath backup)
             (GetOptions bm (Spec_StorageProvider backup)))"

definition selected_deletion_call :: "'w Manager \<Rightarrow> Backup \<Rightarrow> error option \<Rightarrow> event" where
  "selected_deletion_call bm backup =
     (if Spec_Mode backup = VolumeSnapshot then Call_cleanBackupMetaWithVolSnapshots backup
      else if Spec_BR backup \<noteq> None then Call_CleanBRRemoteBackupData backup
      else Call_cleanRemoteBackupData (Status_BackupPath backup)
             (GetOptions bm (Spec_StorageProvider backup)))"

subsection \<open>The stages of a run in the spec's words\<close>

text \<open>The record that the navigator hands to the cleanup: none when the listing fails.\<close>

definition chain_successor :: "'w Manager \<Rightarrow> Backup \<Rightarrow> 'w \<Rightarrow> Backup option" where
  "chain_successor bm backup w =
     (case backupLister_List bm (Namespace backup) w of
        Inl err \<Rightarrow> None
      | Inr bks \<Rightarrow> findSuccessor backup (sort_Slice bm TimeStarted_Before bks))"

text \<open>The outcome reporter: the condition written on the target, the log line, and the
  error handed back, for a deletion that ended with \<open>cleanupError\<close> and a status write
  that ended with \<open>writeError\<close>.\<close>

definition outcome_condition :: "'w Manager \<Rightarrow> error option \<Rightarrow> BackupCondition" where
  "outcome_condition bm cleanupError =
     (case cleanupError of
        Some err \<Rightarrow> \<lparr>Type = BackupFailed, Status = ConditionTrue,
                     Reason = ''CleanBackupDataFailed'', Message = Error bm err\<rparr>
      | None \<Rightarrow> \<lparr>Type = BackupClean, Status = ConditionTrue, Reason = [], Message = []\<rparr>)"

definition outcome_result :: "error option \<Rightarrow> error option \<Rightarrow> error option" where
  "outcome_result cleanupError writeError =
     (case cleanupError of
        Some err \<Rightarrow> NewAggregate [Some err, writeError]
      | None \<Rightarrow> writeError)"

definition outcome_log :: "Backup \<Rightarrow> error option \<Rightarrow> log_entry" where
  "outcome_log backup cleanupError =
     (case cleanupError of
        Some err \<Rightarrow> Errorf_clean_failed (Status_BackupPath backup) err
      | None \<Rightarrow> Infof_clean_success (Status_BackupPath backup))"

definition Complete_condition :: BackupCondition where
  "Complete_condition =
     \<lparr>Type = BackupComplete, Status = ConditionTrue, Reason = [], Message = []\<rparr>"

definition BackupPathIsEmpty_condition :: "'w Manager \<Rightarrow> BackupCondition" where
  "BackupPathIsEmpty_condition bm =
     \<lparr>Type = BackupFailed, Status = ConditionTrue, Reason = ''BackupPathIsEmpty'',
      Message = ''the cluster '' @ String bm @ '' backup path is empty''\<rparr>"

section \<open>A small concrete installation\<close>

text \<open>A world is the catalog, in the order the lister returns it, and the bytes that the
  snapshot chain holds. The four arguments say how the collaborators answer: the result
  of every deletion, the error of the size calculator, the result of a status write on
  each record, and the error of the lister. A deletion of snapshots that succeeds frees
  100 bytes of the chain; \<open>sort.Slice\<close> is the insertion sort of short slices.\<close>

definition demo_Manager ::
  "error option \<Rightarrow> error option \<Rightarrow> (Backup \<Rightarrow> error option) \<Rightarrow> error option
     \<Rightarrow> (Backup list \<times> 64 word) Manager" where
  "demo_Manager del calc upd lst =
     \<lparr>backupLister_List =
        (\<lambda>ns w. case lst of
                  Some e \<Rightarrow> Inl e
                | None \<Rightarrow> Inr (filter (\<lambda>b. Namespace b = ns) (fst w))),
      StatusUpdater_Update = (\<lambda>b c u w. (upd b, w)),
      cleanBackupMetaWithVolSnapshots =
        (\<lambda>b w. case del of
                  Some e \<Rightarrow> (Some e, w)
                | None \<Rightarrow> (None, (fst w, snd w - 100))),
      CleanBRRemoteBackupData = (\<lambda>b w. (del, w)),
      cleanRemoteBackupData = (\<lambda>p opts w. (del, w)),
      String = ''ns/A'',
      GetOptions = (\<lambda>sp. case sp of StorageProvider x \<Rightarrow> [x]),
      CalcVolSnapBackupSize =
        (\<lambda>sp w. case calc of
                   Some e \<Rightarrow> ((0, Some e), w)
                 | None \<Rightarrow> ((snd w, None), w)),
      humanize_Bytes = (\<lambda>n. if n < 1000 then ''under 1 kB'' else ''1 kB or more''),
      sort_Slice = insertionSort,
      Error = (\<lambda>e. case e of Err m \<Rightarrow> m | Aggregate es \<Rightarrow> ''aggregate'')\<rparr>"

definition demo_Backup :: "string \<Rightarrow> int \<Rightarrow> BackupMode \<Rightarrow> Backup" where
  "demo_Backup name t mode =
     \<lparr>Namespace = ''ns'', Name = name, Spec_Mode = mode, Spec_BR = None,
      Spec_StorageProvider = StorageProvider ''s3'',
      Status_BackupPath = ''s3/'' @ name, Status_TimeStarted = t\<rparr>"

text \<open>Three records of one namespace: two volume-snapshot backups with a backup of
  another mode started between them.\<close>

definition demo_A :: Backup where
  "demo_A = demo_Backup ''A'' 1 VolumeSnapshot"

definition demo_B :: Backup where
  "demo_B = demo_Backup ''B'' 2 Normal"

definition demo_C :: Backup where
  "demo_C = demo_Backup ''C'' 3 VolumeSnapshot"

text \<open>A second volume-snapshot backup started at the same instant as \<open>demo_A\<close>.\<close>

definition demo_twin :: Backup where
  "demo_twin = demo_Backup ''T'' 1 VolumeSnapshot"

text \<open>The installation in which every collaborator succeeds.\<close>

definition demo_ok :: "(Backup list \<times> 64 word) Manager" where
  "demo_ok = demo_Manager None None (\<lambda>b. None) None"

section \<open>Properties of the chain navigator\<close>

lemma getVolumeSnapshotBackup_find:
  "getVolumeSnapshotBackup backups = find (\<lambda>bk. Spec_Mode bk = VolumeSnapshot) backups"
  by (induction backups) auto

lemma getNextBackup_range_drop:
  "getNextBackup_range backup bks i = Inr (findSuccessor backup (drop i bks))"
proof (induction backup bks i rule: getNextBackup_range.induct)
  case (1 backup bks i)
  show ?case
  proof (cases "i < length bks")
    case False
    then show ?thesis
      by (simp add: getNextBackup_range.simps [of backup bks i] findSuccessor_def)
  next
    case True
    then have d: "drop i bks = bks ! i # drop (Suc i) bks"
      by (simp add: Cons_nth_drop_Suc)
    show ?thesis
    proof (cases "Name backup = Name (bks ! i)")
      case True
      with \<open>i < length bks\<close> d show ?thesis
        by (simp add: getNextBackup_range.simps [of backup bks i] findSuccessor_def
            slice_from_def getVolumeSnapshotBackup_find)
    next
      case False
      with \<open>i < length bks\<close> d "1.IH" show ?thesis
        by (simp add: getNextBackup_range.simps [of backup bks i] findSuccessor_def)
    qed
  qed
qed

lemma getNextBackup_eq:
  "getNextBackup bm backup w =
     Inr (case backupLister_List bm (Namespace backup) w of
            Inl err \<Rightarrow> None
          | Inr bks \<Rightarrow> findSuccessor backup (sort_Slice bm TimeStarted_Before bks))"
  by (simp add: getNextBackup_def getNextBackup_range_drop split: sum.splits)

lemma getNextBackup_successor: "getNextBackup bm backup w = Inr (chain_successor bm backup w)"
  by (simp add: getNextBackup_eq chain_successor_def)

lemma dropWhile_Cons_split:
  "dropWhile P xs = t # later \<longleftrightarrow>
     (\<exists>before. xs = before @ t # later \<and> (\<forall>b\<in>set before. P b) \<and> \<not> P t)"
proof
  assume d: "dropWhile P xs = t # later"
  then have "xs = takeWhile P xs @ t # later"
    by (metis takeWhile_dropWhile_id)
  moreover have "\<not> P t"
    using d by (metis hd_dropWhile list.distinct(1) list.sel(1))
  moreover have "\<forall>b\<in>set (takeWhile P xs). P b"
    by (auto dest: set_takeWhileD)
  ultimately show "\<exists>before. xs = before @ t # later \<and> (\<forall>b\<in>set before. P b) \<and> \<not> P t"
    by blast
next
  assume "\<exists>before. xs = before @ t # later \<and> (\<forall>b\<in>set before. P b) \<and> \<not> P t"
  then obtain before where "xs = before @ t # later" "\<forall>b\<in>set before. P b" "\<not> P t"
    by blast
  then show "dropWhile P xs = t # later"
    by (simp add: dropWhile_append3)
qed

lemma find_Some_split:
  "find P xs = Some x \<longleftrightarrow> (\<exists>ys zs. xs = ys @ x # zs \<and> (\<forall>y\<in>set ys. \<not> P y) \<and> P x)"
proof -
  have "find P xs = Some x \<longleftrightarrow> (\<exists>zs. dropWhile (Not \<circ> P) xs = x # zs)"
    by (cases "dropWhile (Not \<circ> P) xs") (simp_all add: find_dropWhile del: dropWhile_eq_Nil_conv)
  also have "\<dots> \<longleftrightarrow> (\<exists>zs ys. xs = ys @ x # zs \<and> (\<forall>y\<in>set ys. (Not \<circ> P) y) \<and> \<not> (Not \<circ> P) x)"
    by (simp only: dropWhile_Cons_split)
  also have "\<dots> \<longleftrightarrow> (\<exists>ys zs. xs = ys @ x # zs \<and> (\<forall>y\<in>set ys. \<not> P y) \<and> P x)"
    by auto
  finally show ?thesis .
qed

lemma findSuccessor_Some_iff:
  "findSuccessor target bks = Some nxt \<longleftrightarrow>
     (\<exists>before t skipped after.
        bks = before @ t # skipped @ nxt # after \<and>
        (\<forall>b\<in>set before. Name b \<noteq> Name target) \<and> Name t = Name target \<and>
        (\<forall>b\<in>set skipped. Spec_Mode b \<noteq> VolumeSnapshot) \<and> Spec_Mode nxt = VolumeSnapshot)"
  (is "?l \<longleftrightarrow> ?r")
proof
  assume ?l
  then obtain t later where d: "dropWhile (\<lambda>bk. Name bk \<noteq> Name target) bks = t # later"
    and f: "find (\<lambda>bk. Spec_Mode bk = VolumeSnapshot) later = Some nxt"
    by (auto simp: findSuccessor_def split: list.splits)
  from d obtain before where "bks = before @ t # later"
    "\<forall>b\<in>set before. Name b \<noteq> Name target" "Name t = Name target"
    unfolding dropWhile_Cons_split by blast
  moreover from f obtain skipped after where "later = skipped @ nxt # after"
    "\<forall>b\<in>set skipped. Spec_Mode b \<noteq> VolumeSnapshot" "Spec_Mode nxt = VolumeSnapshot"
    unfolding find_Some_split by blast
  ultimately show ?r by blast
next
  assume ?r
  then obtain before t skipped after where b: "bks = before @ t # skipped @ nxt # after"
    "\<forall>b\<in>set before. Name b \<noteq> Name target" "Name t = Name target"
    "\<forall>b\<in>set skipped. Spec_Mode b \<noteq> VolumeSnapshot" "Spec_Mode nxt = VolumeSnapshot"
    by blast
  then have "dropWhile (\<lambda>bk. Name bk \<noteq> Name target) bks = t # skipped @ nxt # after"
    by (simp add: dropWhile_append3)
  moreover have "find (\<lambda>bk. Spec_Mode bk = VolumeSnapshot) (skipped @ nxt # after) = Some nxt"
    unfolding find_Some_split using b(4,5) by blast
  ultimately show ?l by (simp add: findSuccessor_def)
qed

lemma findSuccessor_last:
  "(\<forall>b\<in>set before. Name b \<noteq> Name target) \<Longrightarrow> Name t = Name target \<Longrightarrow>
   findSuccessor target (before @ [t]) = None"
  by (simp add: findSuccessor_def dropWhile_append3)

lemma findSuccessor_absent:
  "(\<forall>b\<in>set bks. Name b \<noteq> Name target) \<Longrightarrow> findSuccessor target bks = None"
proof -
  assume "\<forall>b\<in>set bks. Name b \<noteq> Name target"
  then have "dropWhile (\<lambda>bk. Name bk \<noteq> Name target) bks = []"
    by simp
  then show ?thesis
    by (simp add: findSuccessor_def del: dropWhile_eq_Nil_conv)
qed

lemma findSuccessor_other_name:
  assumes "findSuccessor target bks = Some n" and "distinct (map Name bks)"
  shows "Name n \<noteq> Name target"
proof -
  from assms(1) obtain before t skipped after where
    "bks = before @ t # skipped @ n # after" "Name t = Name target"
    unfolding findSuccessor_Some_iff by blast
  with assms(2) show ?thesis
    by auto
qed

subsection \<open>What the promise of \<open>sort.Slice\<close> gives, and that the insertion sort keeps it\<close>

lemma sort_Slice_ok_set:
  "sort_Slice_ok bm \<Longrightarrow> set (sort_Slice bm TimeStarted_Before bks) = set bks"
  by (metis sort_Slice_ok_def mset_eq_setD)

lemma sorted_wrt_TimeStarted:
  "sorted_wrt (\<lambda>a b. \<not> TimeStarted_Before b a) xs =
   sorted_wrt (\<lambda>a b. Status_TimeStarted a \<le> Status_TimeStarted b) xs"
  by (simp add: TimeStarted_Before_def not_less)

lemma chain_successor_other_name:
  assumes "chain_successor bm backup w = Some n" and "sort_Slice_ok bm"
    and "backupLister_List bm (Namespace backup) w = Inr bks"
    and "distinct (map Name bks)"
  shows "Name n \<noteq> Name backup"
proof -
  have "mset (sort_Slice bm TimeStarted_Before bks) = mset bks"
    using assms(2) by (simp add: sort_Slice_ok_def)
  then have "mset (map Name (sort_Slice bm TimeStarted_Before bks)) = mset (map Name bks)"
    by (metis mset_map)
  with assms(4) have "distinct (map Name (sort_Slice bm TimeStarted_Before bks))"
    by (metis mset_eq_imp_distinct_iff)
  moreover have "findSuccessor backup (sort_Slice bm TimeStarted_Before bks) = Some n"
    using assms(1,3) by (simp add: chain_successor_def)
  ultimately show ?thesis
    by (rule findSuccessor_other_name [rotated])
qed

lemma sorted_perm_unique:
  assumes "mset xs = mset ys"
    and "sorted_wrt (\<lambda>a b. \<not> TimeStarted_Before b a) xs"
    and "sorted_wrt (\<lambda>a b. \<not> TimeStarted_Before b a) ys"
    and "distinct (map Status_TimeStarted xs)"
  shows "xs = ys"
proof -
  have eq: "mset (map Status_TimeStarted xs) = mset (map Status_TimeStarted ys)"
    using assms(1) by (metis mset_map)
  have sx: "sorted (map Status_TimeStarted xs)"
    using assms(2) by (simp add: sorted_wrt_map TimeStarted_Before_def not_less sorted_wrt_iff_nth_less)
  have sy: "sorted (map Status_TimeStarted ys)"
    using assms(3) by (simp add: sorted_wrt_map TimeStarted_Before_def not_less)
  have dy: "distinct (map Status_TimeStarted ys)"
    using assms(4) eq by (metis mset_eq_imp_distinct_iff)
  have "map Status_TimeStarted xs = map Status_TimeStarted ys"
    using eq sx sy by (metis properties_for_sort)
  moreover have "inj_on Status_TimeStarted (set xs \<union> set ys)"
    using assms(1,4) by (metis distinct_map mset_eq_setD sup.idem)
  ultimately show ?thesis
    by (rule inj_on_map_eq_map [THEN iffD1, rotated])
qed

lemma mset_insertionSort_insert:
  "mset (insertionSort_insert lt x ys) = add_mset x (mset ys)"
  by (induction ys) auto

lemma set_insertionSort_insert:
  "set (insertionSort_insert lt x ys) = insert x (set ys)"
  by (induction ys) auto

lemma sorted_insertionSort_insert:
  "sorted_wrt (\<lambda>a b. \<not> TimeStarted_Before a b) ys \<Longrightarrow>
   sorted_wrt (\<lambda>a b. \<not> TimeStarted_Before a b) (insertionSort_insert TimeStarted_Before x ys)"
  by (induction ys) (auto simp: set_insertionSort_insert TimeStarted_Before_def)

lemma mset_foldl_insert:
  "mset (foldl (\<lambda>acc x. insertionSort_insert lt x acc) acc xs) = mset acc + mset xs"
  by (induction xs arbitrary: acc) (auto simp: mset_insertionSort_insert)

lemma sorted_foldl_insert:
  "sorted_wrt (\<lambda>a b. \<not> TimeStarted_Before a b) acc \<Longrightarrow>
   sorted_wrt (\<lambda>a b. \<not> TimeStarted_Before a b)
     (foldl (\<lambda>acc x. insertionSort_insert TimeStarted_Before x acc) acc xs)"
  by (induction xs arbitrary: acc) (auto simp: sorted_insertionSort_insert)

lemma mset_insertionSort: "mset (insertionSort lt xs) = mset xs"
  by (simp add: insertionSort_def mset_foldl_insert)

lemma sorted_insertionSort:
  "sorted_wrt (\<lambda>a b. \<not> TimeStarted_Before b a) (insertionSort TimeStarted_Before xs)"
  using sorted_foldl_insert [of "[]" xs]
  by (simp add: insertionSort_def sorted_wrt_rev)

lemma insertionSort_simps:
  "insertionSort lt [] = []"
  "insertionSort lt (x # xs) = rev (foldl (\<lambda>acc x. insertionSort_insert lt x acc) [x] xs)"
  by (simp_all add: insertionSort_def)

section \<open>Symbolic runs of the cleanup\<close>

lemma updateVolumeSnapshotBackupSize_run:
  "updateVolumeSnapshotBackupSize bm n s =
     (let c = CalcVolSnapBackupSize bm (Spec_StorageProvider n) (world s);
          size = fst (fst c);
          cerr = snd (fst c);
          st = \<lparr>BackupSize = Some size, BackupSizeReadable = Some (humanize_Bytes bm size)\<rparr>;
          u = StatusUpdater_Update bm n Complete_condition (Some st) (snd c)
      in (fst u,
          \<lparr>world = snd u,
           trace = trace s @ [Call_CalcVolSnapBackupSize (Spec_StorageProvider n) size cerr] @
             (case cerr of Some e \<Rightarrow> [Klog (Warningf_failed_to_parse_BackupSize size e)] | None \<Rightarrow> []) @
             [Call_Update n Complete_condition (Some st) (fst u)]\<rparr>))"
  by (simp add: updateVolumeSnapshotBackupSize_def call_def klog_def Update_def Let_def
      Complete_condition_def split: prod.splits option.splits)

lemma performCleanBackup_empty_path:
  assumes "Status_BackupPath backup = []"
  shows "performCleanBackup bm backup s =
     (let c = BackupPathIsEmpty_condition bm;
          u = StatusUpdater_Update bm backup c None (world s)
      in (Inr (fst u),
          \<lparr>world = snd u,
           trace = trace s @ [Klog Errorf_backup_path_is_empty, Call_Update backup c None (fst u)]\<rparr>))"
  using assms
  by (simp add: performCleanBackup_def call_def klog_def Update_def Let_def
      BackupPathIsEmpty_condition_def split: prod.splits)

lemma performCleanBackup_run:
  assumes "Status_BackupPath backup \<noteq> []"
  shows "performCleanBackup bm backup s =
     (let vs = (Spec_Mode backup = VolumeSnapshot);
          nxt = (if vs then chain_successor bm backup (world s) else None);
          d = selected_deletion bm backup (world s);
          err = fst d;
          s3 = \<lparr>world = snd d,
                trace = trace s @ (if vs \<and> nxt = None then [Klog Errorf_next_backup_is_nil] else []) @
                  [selected_deletion_call bm backup err] @
                  (if vs \<and> err \<noteq> None then [Klog (Errorf_delete_backup_failure (Name backup))] else [])\<rparr>;
          s4 = (case nxt of Some n \<Rightarrow> snd (updateVolumeSnapshotBackupSize bm n s3) | None \<Rightarrow> s3);
          c = outcome_condition bm err;
          u = StatusUpdater_Update bm backup c None (world s4)
      in (Inr (outcome_result err (fst u)),
          \<lparr>world = snd u,
           trace = trace s4 @ [Klog (outcome_log backup err), Call_Update backup c None (fst u)]\<rparr>))"
proof -
  obtain err w1 where d: "selected_deletion bm backup (world s) = (err, w1)"
    by fastforce
  show ?thesis
  proof (cases "Spec_Mode backup = VolumeSnapshot")
    case vs: True
    with d have d': "cleanBackupMetaWithVolSnapshots bm backup (world s) = (err, w1)"
      by (simp add: selected_deletion_def)
    show ?thesis
    proof (cases "chain_successor bm backup (world s)")
      case None
      show ?thesis
      proof (cases err)
        case None
        with assms vs d d' \<open>chain_successor bm backup (world s) = None\<close> show ?thesis
          by (simp add: performCleanBackup_def getNextBackup_successor call_def klog_def
              Update_def Let_def selected_deletion_call_def outcome_condition_def
              outcome_result_def outcome_log_def split: prod.splits)
      next
        case (Some e)
        with assms vs d d' \<open>chain_successor bm backup (world s) = None\<close> show ?thesis
          by (simp add: performCleanBackup_def getNextBackup_successor call_def klog_def
              Update_def Let_def selected_deletion_call_def outcome_condition_def
              outcome_result_def outcome_log_def split: prod.splits)
      qed
    next
      case (Some n)
      show ?thesis
      proof (cases err)
        case None
        with assms vs d d' \<open>chain_successor bm backup (world s) = Some n\<close> show ?thesis
          by (simp add: performCleanBackup_def getNextBackup_successor call_def klog_def
              Update_def Let_def selected_deletion_call_def outcome_condition_def
              outcome_result_def outcome_log_def split: prod.splits)
      next
        case (Some e)
        with assms vs d d' \<open>chain_successor bm backup (world s) = Some n\<close> show ?thesis
          by (simp add: performCleanBackup_def getNextBackup_successor call_def klog_def
              Update_def Let_def selected_deletion_call_def outcome_condition_def
              outcome_result_def outcome_log_def split: prod.splits)
      qed
    qed
  next
    case nvs: False
    show ?thesis
    proof (cases "Spec_BR backup")
      case None
      with d nvs have d': "cleanRemoteBackupData bm (Status_BackupPath backup)
          (GetOptions bm (Spec_StorageProvider backup)) (world s) = (err, w1)"
        by (simp add: selected_deletion_def)
      show ?thesis
      proof (cases err)
        case None
        with assms nvs d d' \<open>Spec_BR backup = None\<close> show ?thesis
          by (simp add: performCleanBackup_def call_def klog_def
              Update_def Let_def selected_deletion_call_def outcome_condition_def
              outcome_result_def outcome_log_def split: prod.splits)
      next
        case (Some e)
        with assms nvs d d' \<open>Spec_BR backup = None\<close> show ?thesis
          by (simp add: performCleanBackup_def call_def klog_def
              Update_def Let_def selected_deletion_call_def outcome_condition_def
              outcome_result_def outcome_log_def split: prod.splits)
      qed
    next
      case (Some br)
      with d nvs have d': "CleanBRRemoteBackupData bm backup (world s) = (err, w1)"
        by (simp add: selected_deletion_def)
      show ?thesis
      proof (cases err)
        case None
        with assms nvs d d' \<open>Spec_BR backup = Some br\<close> show ?thesis
          by (simp add: performCleanBackup_def call_def klog_def
              Update_def Let_def selected_deletion_call_def outcome_condition_def
              outcome_result_def outcome_log_def split: prod.splits)
      next
        case (Some e)
        with assms nvs d d' \<open>Spec_BR backup = Some br\<close> show ?thesis
          by (simp add: performCleanBackup_def call_def klog_def
              Update_def Let_def selected_deletion_call_def outcome_condition_def
              outcome_result_def outcome_log_def split: prod.splits)
      qed
    qed
  qed
qed

lemma updates_simps [simp]:
  "updates [] = []"
  "updates (e # tr) = update_of e @ updates tr"
  "updates (tr @ tr') = updates tr @ updates tr'"
  by (simp_all add: updates_def)

lemma deletions_simps [simp]:
  "deletions [] = []"
  "deletions (e # tr) = (if is_deletion e then e # deletions tr else deletions tr)"
  "deletions (tr @ tr') = deletions tr @ deletions tr'"
  by (simp_all add: deletions_def)

lemma logs_simps [simp]:
  "logs [] = []"
  "logs (e # tr) = log_of e @ logs tr"
  "logs (tr @ tr') = logs tr @ logs tr'"
  by (simp_all add: logs_def)

lemma is_deletion_selected [simp]: "is_deletion (selected_deletion_call bm backup err)"
  by (simp add: selected_deletion_call_def)

lemma update_of_selected [simp]: "update_of (selected_deletion_call bm backup err) = []"
  by (simp add: selected_deletion_call_def)

lemma log_of_selected [simp]: "log_of (selected_deletion_call bm backup err) = []"
  by (simp add: selected_deletion_call_def)

text \<open>The state in which the outcome is reported: the deletion has run and the
  successor, if any, has been updated.\<close>

lemma performCleanBackup_shape:
  assumes "Status_BackupPath backup \<noteq> []"
  obtains pre w3 where
    "performCleanBackup bm backup (start w) =
       (let err = fst (selected_deletion bm backup w);
            c = outcome_condition bm err;
            u = StatusUpdater_Update bm backup c None w3
        in (Inr (outcome_result err (fst u)),
            \<lparr>world = snd u,
             trace = pre @ [Klog (outcome_log backup err), Call_Update backup c None (fst u)]\<rparr>))"
    and "deletions pre = [selected_deletion_call bm backup (fst (selected_deletion bm backup w))]"
    and "updates pre = [] \<or>
         (\<exists>n st serr. Spec_Mode backup = VolumeSnapshot \<and> chain_successor bm backup w = Some n \<and>
            updates pre = [(n, Complete_condition, Some st, serr)])"
proof -
  define vs where "vs = (Spec_Mode backup = VolumeSnapshot)"
  define nxt where "nxt = (if vs then chain_successor bm backup w else None)"
  define err where "err = fst (selected_deletion bm backup w)"
  define s3 where "s3 =
     \<lparr>world = snd (selected_deletion bm backup w),
      trace = trace (start w) @
         (if vs \<and> nxt = None then [Klog Errorf_next_backup_is_nil] else []) @
         [selected_deletion_call bm backup err] @
         (if vs \<and> err \<noteq> None then [Klog (Errorf_delete_backup_failure (Name backup))] else [])\<rparr>"
  define s4 where "s4 =
     (case nxt of Some n \<Rightarrow> snd (updateVolumeSnapshotBackupSize bm n s3) | None \<Rightarrow> s3)"
  have run: "performCleanBackup bm backup (start w) =
       (let err = fst (selected_deletion bm backup w);
            c = outcome_condition bm err;
            u = StatusUpdater_Update bm backup c None (world s4)
        in (Inr (outcome_result err (fst u)),
            \<lparr>world = snd u,
             trace = trace s4 @ [Klog (outcome_log backup err), Call_Update backup c None (fst u)]\<rparr>))"
  proof -
    have w: "world (start w) = w"
      by (simp add: start_def)
    show ?thesis
      unfolding performCleanBackup_run [OF assms] s4_def s3_def nxt_def vs_def err_def Let_def w
      by (rule refl)
  qed
  have d3: "deletions (trace s3) = [selected_deletion_call bm backup err]"
    by (simp add: s3_def start_def)
  have u3: "updates (trace s3) = []"
    by (simp add: s3_def start_def)
  have d4: "deletions (trace s4) = [selected_deletion_call bm backup err]"
    using d3 by (cases nxt) (simp_all add: s4_def updateVolumeSnapshotBackupSize_run Let_def
        split: option.splits)
  have u4: "updates (trace s4) = [] \<or>
         (\<exists>n st serr. Spec_Mode backup = VolumeSnapshot \<and> chain_successor bm backup w = Some n \<and>
            updates (trace s4) = [(n, Complete_condition, Some st, serr)])"
  proof (cases nxt)
    case None
    then show ?thesis using u3 by (simp add: s4_def)
  next
    case (Some n)
    then have "Spec_Mode backup = VolumeSnapshot \<and> chain_successor bm backup w = Some n"
      by (simp add: nxt_def vs_def split: if_splits)
    moreover have "\<exists>st serr. updates (trace s4) = [(n, Complete_condition, Some st, serr)]"
      using Some u3 by (simp add: s4_def updateVolumeSnapshotBackupSize_run Let_def
          split: option.splits)
    ultimately show ?thesis by blast
  qed
  from run d4 u4 show ?thesis
    unfolding err_def by (rule that)
qed

lemma NewAggregate_pair:
  "NewAggregate [Some err, uerr] =
     Some (Aggregate (err # (case uerr of None \<Rightarrow> [] | Some e \<Rightarrow> [e])))"
  by (cases uerr) (simp_all add: NewAggregate_def)

section \<open>Evaluating the concrete installation\<close>

lemma sort_Slice_ok_insertionSort: "sort_Slice_ok (demo_Manager del calc upd lst)"
  by (simp add: sort_Slice_ok_def demo_Manager_def mset_insertionSort sorted_insertionSort)

lemma demo_List:
  "backupLister_List (demo_Manager del calc upd None) ns w = Inr (filter (\<lambda>b. Namespace b = ns) (fst w))"
  "backupLister_List (demo_Manager del calc upd (Some e)) ns w = Inl e"
  "sort_Slice (demo_Manager del calc upd lst) = insertionSort"
  by (simp_all add: demo_Manager_def)

lemma demo_sort_CAB:
  "sort_Slice demo_ok TimeStarted_Before [demo_C, demo_A, demo_B] = [demo_A, demo_B, demo_C]"
  by (simp add: demo_ok_def demo_List insertionSort_simps
      demo_A_def demo_B_def demo_C_def demo_Backup_def TimeStarted_Before_def)

lemma demo_sort_twins:
  "sort_Slice demo_ok TimeStarted_Before [demo_A, demo_twin] = [demo_A, demo_twin]"
  "sort_Slice demo_ok TimeStarted_Before [demo_twin, demo_A] = [demo_twin, demo_A]"
  by (simp_all add: demo_ok_def demo_List insertionSort_simps
      demo_A_def demo_twin_def demo_Backup_def TimeStarted_Before_def)

lemma demo_Namespace [simp]:
  "Namespace demo_A = ''ns''" "Namespace demo_B = ''ns''" "Namespace demo_C = ''ns''"
  "Namespace demo_twin = ''ns''"
  by (simp_all add: demo_A_def demo_B_def demo_C_def demo_twin_def demo_Backup_def)

lemma demo_Name [simp]:
  "Name demo_A = ''A''" "Name demo_B = ''B''" "Name demo_C = ''C''" "Name demo_twin = ''T''"
  by (simp_all add: demo_A_def demo_B_def demo_C_def demo_twin_def demo_Backup_def)

lemma demo_Spec_Mode [simp]:
  "Spec_Mode demo_A = VolumeSnapshot" "Spec_Mode demo_B = Normal"
  "Spec_Mode demo_C = VolumeSnapshot" "Spec_Mode demo_twin = VolumeSnapshot"
  by (simp_all add: demo_A_def demo_B_def demo_C_def demo_twin_def demo_Backup_def)

lemma demo_Status_TimeStarted [simp]:
  "Status_TimeStarted demo_A = 1" "Status_TimeStarted demo_B = 2"
  "Status_TimeStarted demo_C = 3" "Status_TimeStarted demo_twin = 1"
  by (simp_all add: demo_A_def demo_B_def demo_C_def demo_twin_def demo_Backup_def)

lemma demo_ok_List [simp]:
  "backupLister_List demo_ok ns w = Inr (filter (\<lambda>b. Namespace b = ns) (fst w))"
  by (simp add: demo_ok_def demo_List)

lemma demo_Manager_fields:
  "StatusUpdater_Update (demo_Manager del calc upd lst) b c u w = (upd b, w)"
  "cleanBackupMetaWithVolSnapshots (demo_Manager del calc upd lst) b w =
     (case del of Some e \<Rightarrow> (Some e, w) | None \<Rightarrow> (None, (fst w, snd w - 100)))"
  "CleanBRRemoteBackupData (demo_Manager del calc upd lst) b w = (del, w)"
  "cleanRemoteBackupData (demo_Manager del calc upd lst) p opts w = (del, w)"
  "String (demo_Manager del calc upd lst) = ''ns/A''"
  "GetOptions (demo_Manager del calc upd lst) (StorageProvider x) = [x]"
  "CalcVolSnapBackupSize (demo_Manager del calc upd lst) sp w =
     (case calc of Some e \<Rightarrow> ((0, Some e), w) | None \<Rightarrow> ((snd w, None), w))"
  "Error (demo_Manager del calc upd lst) (Err m) = m"
  by (simp_all add: demo_Manager_def)

lemma demo_Status_BackupPath [simp]:
  "Status_BackupPath demo_A = ''s3/A''" "Status_BackupPath demo_B = ''s3/B''"
  "Status_BackupPath demo_C = ''s3/C''"
  by (simp_all add: demo_A_def demo_B_def demo_C_def demo_Backup_def)

lemma demo_Spec_BR [simp]:
  "Spec_BR demo_A = None" "Spec_BR demo_B = None" "Spec_BR demo_C = None"
  by (simp_all add: demo_A_def demo_B_def demo_C_def demo_Backup_def)

lemma demo_Spec_StorageProvider [simp]:
  "Spec_StorageProvider demo_A = StorageProvider ''s3''"
  "Spec_StorageProvider demo_B = StorageProvider ''s3''"
  "Spec_StorageProvider demo_C = StorageProvider ''s3''"
  by (simp_all add: demo_A_def demo_B_def demo_C_def demo_Backup_def)

lemma demo_getNextBackup_A:
  "getNextBackup (demo_Manager del calc upd None) demo_A ([demo_C, demo_A, demo_B], sz) =
     Inr (Some demo_C)"
  "getNextBackup (demo_Manager del calc upd None) (demo_A\<lparr>Status_BackupPath := []\<rparr>)
       ([demo_C, demo_A, demo_B], sz) = Inr (Some demo_C)"
  by (simp_all add: getNextBackup_eq demo_List insertionSort_simps findSuccessor_def
      demo_A_def demo_B_def demo_C_def demo_Backup_def TimeStarted_Before_def)

section \<open>The claims about the chain navigator\<close>

text \<open>
  C1, as amended. When the listing succeeds, \<open>getNextBackup\<close> scans a rearrangement of
  the listing that ascends by start time: it finds the first record with the target's
  name and returns the first volume-snapshot record strictly after it, none when there
  is no such record. So the result is \<open>nxt\<close> exactly when the sorted sequence is
  \<open>before @ t # skipped @ nxt # after\<close>, where \<open>t\<close> is the first record with the
  target's name and \<open>skipped\<close> holds only records of another mode. When the start times
  of the listed records are pairwise distinct, the result is the same for every order in
  which a lister returns these records, under every \<open>sort.Slice\<close>.
\<close>

theorem getNextBackup_findSuccessor:
  assumes "sort_Slice_ok bm"
    and "backupLister_List bm (Namespace target) w = Inr bks"
    and "sorted_bks = sort_Slice bm TimeStarted_Before bks"
  shows "mset sorted_bks = mset bks \<and>
    sorted_wrt (\<lambda>a b. Status_TimeStarted a \<le> Status_TimeStarted b) sorted_bks \<and>
    getNextBackup bm target w = Inr (findSuccessor target sorted_bks) \<and>
    (\<forall>nxt. getNextBackup bm target w = Inr (Some nxt) \<longleftrightarrow>
       (\<exists>before t skipped after.
          sorted_bks = before @ t # skipped @ nxt # after \<and>
          (\<forall>b\<in>set before. Name b \<noteq> Name target) \<and> Name t = Name target \<and>
          (\<forall>b\<in>set skipped. Spec_Mode b \<noteq> VolumeSnapshot) \<and>
          Spec_Mode nxt = VolumeSnapshot)) \<and>
    (\<forall>bm' w' bks'.
       sort_Slice_ok bm' \<and> backupLister_List bm' (Namespace target) w' = Inr bks' \<and>
       mset bks' = mset bks \<and> distinct (map Status_TimeStarted bks)
       \<longrightarrow> getNextBackup bm' target w' = getNextBackup bm target w)"
proof (intro conjI allI impI)
  show m: "mset sorted_bks = mset bks"
    using assms(1,3) by (simp add: sort_Slice_ok_def)
  show srt: "sorted_wrt (\<lambda>a b. Status_TimeStarted a \<le> Status_TimeStarted b) sorted_bks"
    using assms(1,3) by (simp add: sort_Slice_ok_def sorted_wrt_TimeStarted [symmetric])
  show g: "getNextBackup bm target w = Inr (findSuccessor target sorted_bks)"
    using assms(2,3) by (simp add: getNextBackup_eq)
  show "getNextBackup bm target w = Inr (Some nxt) \<longleftrightarrow>
       (\<exists>before t skipped after.
          sorted_bks = before @ t # skipped @ nxt # after \<and>
          (\<forall>b\<in>set before. Name b \<noteq> Name target) \<and> Name t = Name target \<and>
          (\<forall>b\<in>set skipped. Spec_Mode b \<noteq> VolumeSnapshot) \<and>
          Spec_Mode nxt = VolumeSnapshot)" for nxt
    unfolding g by (simp only: sum.inject findSuccessor_Some_iff)
  show "getNextBackup bm' target w' = getNextBackup bm target w"
    if h: "sort_Slice_ok bm' \<and> backupLister_List bm' (Namespace target) w' = Inr bks' \<and>
       mset bks' = mset bks \<and> distinct (map Status_TimeStarted bks)"
    for bm' w' bks'
  proof -
    let ?s' = "sort_Slice bm' TimeStarted_Before bks'"
    have "mset sorted_bks = mset ?s'"
      using m h by (simp add: sort_Slice_ok_def)
    moreover have "sorted_wrt (\<lambda>a b. \<not> TimeStarted_Before b a) sorted_bks"
      using assms(1,3) by (simp add: sort_Slice_ok_def)
    moreover have "sorted_wrt (\<lambda>a b. \<not> TimeStarted_Before b a) ?s'"
      using h by (simp add: sort_Slice_ok_def)
    moreover have "distinct (map Status_TimeStarted sorted_bks)"
      using m h by (metis mset_map mset_eq_imp_distinct_iff)
    ultimately have "sorted_bks = ?s'"
      by (rule sorted_perm_unique)
    with g h show ?thesis
      by (simp add: getNextBackup_eq)
  qed
qed

theorem getNextBackup_findSuccessor_witness:
  "sort_Slice_ok demo_ok \<and>
   backupLister_List demo_ok (Namespace demo_A) ([demo_C, demo_A, demo_B], 500) = Inr [demo_C, demo_A, demo_B] \<and>
   [demo_A, demo_B, demo_C] = sort_Slice demo_ok TimeStarted_Before [demo_C, demo_A, demo_B] \<and>
   [demo_A, demo_B, demo_C] = [] @ demo_A # [demo_B] @ demo_C # [] \<and>
   getNextBackup demo_ok demo_A ([demo_C, demo_A, demo_B], 500) = Inr (Some demo_C) \<and>
   mset [demo_B, demo_C, demo_A] = mset [demo_C, demo_A, demo_B] \<and>
   distinct (map Status_TimeStarted [demo_C, demo_A, demo_B]) \<and>
   getNextBackup demo_ok demo_A ([demo_B, demo_C, demo_A], 300) =
     getNextBackup demo_ok demo_A ([demo_C, demo_A, demo_B], 500)"
proof -
  let ?w = "([demo_C, demo_A, demo_B], 500 :: 64 word)"
  let ?w' = "([demo_B, demo_C, demo_A], 300 :: 64 word)"
  have ok: "sort_Slice_ok demo_ok"
    by (simp add: demo_ok_def sort_Slice_ok_insertionSort)
  have l: "backupLister_List demo_ok (Namespace demo_A) ?w = Inr [demo_C, demo_A, demo_B]"
    by simp
  have s: "[demo_A, demo_B, demo_C] = sort_Slice demo_ok TimeStarted_Before [demo_C, demo_A, demo_B]"
    by (simp add: demo_sort_CAB)
  note inst = getNextBackup_findSuccessor [OF ok l s]
  have shape: "[demo_A, demo_B, demo_C] = [] @ demo_A # [demo_B] @ demo_C # [] \<and>
      (\<forall>b\<in>set []. Name b \<noteq> Name demo_A) \<and> Name demo_A = Name demo_A \<and>
      (\<forall>b\<in>set [demo_B]. Spec_Mode b \<noteq> VolumeSnapshot) \<and> Spec_Mode demo_C = VolumeSnapshot"
    by simp
  have "\<exists>before t skipped after.
      [demo_A, demo_B, demo_C] = before @ t # skipped @ demo_C # after \<and>
      (\<forall>b\<in>set before. Name b \<noteq> Name demo_A) \<and> Name t = Name demo_A \<and>
      (\<forall>b\<in>set skipped. Spec_Mode b \<noteq> VolumeSnapshot) \<and> Spec_Mode demo_C = VolumeSnapshot"
    by (rule exI [of _ "[]"], rule exI [of _ demo_A], rule exI [of _ "[demo_B]"],
        rule exI [of _ "[]"]) (rule shape)
  then have r: "getNextBackup demo_ok demo_A ?w = Inr (Some demo_C)"
    by (simp only: inst [THEN conjunct2, THEN conjunct2, THEN conjunct2, THEN conjunct1,
          rule_format, of demo_C])
  have l': "backupLister_List demo_ok (Namespace demo_A) ?w' = Inr [demo_B, demo_C, demo_A]"
    by simp
  have p: "mset [demo_B, demo_C, demo_A] = mset [demo_C, demo_A, demo_B]"
    by simp
  have d: "distinct (map Status_TimeStarted [demo_C, demo_A, demo_B])"
    by simp
  have i: "getNextBackup demo_ok demo_A ?w' = getNextBackup demo_ok demo_A ?w"
    by (rule inst [THEN conjunct2, THEN conjunct2, THEN conjunct2, THEN conjunct2,
          rule_format, OF conjI [OF ok conjI [OF l' conjI [OF p d]]]])
  from shape have shape': "[demo_A, demo_B, demo_C] = [] @ demo_A # [demo_B] @ demo_C # []"
    by (rule conjunct1)
  from ok l s shape' r p d i show ?thesis
    by (intro conjI)
qed

text \<open>
  Against C1 as stated: with two volume-snapshot records started at the same instant the
  result does depend on the order of the listing. The sort leaves the two in the order
  it found them, so the one listed first has the other as its successor, and listed
  second it has none.
\<close>

theorem getNextBackup_listing_order_counterexample:
  "mset [demo_twin, demo_A] = mset [demo_A, demo_twin] \<and>
   Status_TimeStarted demo_twin = Status_TimeStarted demo_A \<and>
   getNextBackup demo_ok demo_A ([demo_A, demo_twin], 500) = Inr (Some demo_twin) \<and>
   getNextBackup demo_ok demo_A ([demo_twin, demo_A], 500) = Inr None"
  by (simp add: getNextBackup_eq demo_sort_twins findSuccessor_def)

text \<open>
  C10. \<open>getNextBackup\<close> is total: for every lister, every \<open>sort.Slice\<close> and every
  target it returns and never panics. The slice expression \<open>bks[i+1:]\<close> is in range for
  every index \<open>i\<close> of the loop, and for the last index it is the empty slice. When the
  target is the last record of the sorted sequence, or when no listed record has the
  target's name, the result is none.
\<close>

theorem getNextBackup_never_panics:
  "(\<exists>r. getNextBackup bm target w = Inr r) \<and>
   (\<forall>(bks :: Backup list) i. i < length bks \<longrightarrow> slice_from bks (i + 1) = Inr (drop (i + 1) bks)) \<and>
   (\<forall>bks :: Backup list. slice_from bks (length bks) = Inr []) \<and>
   (\<forall>bks before t.
      backupLister_List bm (Namespace target) w = Inr bks \<and>
      sort_Slice bm TimeStarted_Before bks = before @ [t] \<and>
      Name t = Name target \<and> (\<forall>b\<in>set before. Name b \<noteq> Name target)
      \<longrightarrow> getNextBackup bm target w = Inr None) \<and>
   (\<forall>bks.
      sort_Slice_ok bm \<and> backupLister_List bm (Namespace target) w = Inr bks \<and>
      (\<forall>b\<in>set bks. Name b \<noteq> Name target)
      \<longrightarrow> getNextBackup bm target w = Inr None)"
proof (intro conjI allI impI)
  show "\<exists>r. getNextBackup bm target w = Inr r"
    by (simp add: getNextBackup_eq)
next
  fix bks :: "Backup list" and i
  assume "i < length bks"
  then show "slice_from bks (i + 1) = Inr (drop (i + 1) bks)"
    by (simp add: slice_from_def)
next
  fix bks :: "Backup list"
  show "slice_from bks (length bks) = Inr []"
    by (simp add: slice_from_def)
next
  fix bks before t
  assume "backupLister_List bm (Namespace target) w = Inr bks \<and>
      sort_Slice bm TimeStarted_Before bks = before @ [t] \<and>
      Name t = Name target \<and> (\<forall>b\<in>set before. Name b \<noteq> Name target)"
  then show "getNextBackup bm target w = Inr None"
    by (simp add: getNextBackup_eq findSuccessor_last)
next
  fix bks
  assume a: "sort_Slice_ok bm \<and> backupLister_List bm (Namespace target) w = Inr bks \<and>
      (\<forall>b\<in>set bks. Name b \<noteq> Name target)"
  then have "\<forall>b\<in>set (sort_Slice bm TimeStarted_Before bks). Name b \<noteq> Name target"
    by (simp add: sort_Slice_ok_set)
  with a show "getNextBackup bm target w = Inr None"
    by (simp add: getNextBackup_eq findSuccessor_absent)
qed

theorem getNextBackup_never_panics_witness:
  "slice_from [demo_A, demo_B, demo_C] (2 + 1) = Inr (drop (2 + 1) [demo_A, demo_B, demo_C]) \<and>
   sort_Slice demo_ok TimeStarted_Before [demo_C, demo_A, demo_B] = [demo_A, demo_B] @ [demo_C] \<and>
   getNextBackup demo_ok demo_C ([demo_C, demo_A, demo_B], 500) = Inr None \<and>
   sort_Slice_ok demo_ok \<and>
   getNextBackup demo_ok demo_B ([demo_C, demo_A], 500) = Inr None"
proof -
  let ?w = "([demo_C, demo_A, demo_B], 500 :: 64 word)"
  let ?v = "([demo_C, demo_A], 500 :: 64 word)"
  have "\<forall>(bks :: Backup list) i. i < length bks \<longrightarrow> slice_from bks (i + 1) = Inr (drop (i + 1) bks)"
    using getNextBackup_never_panics [of demo_ok demo_C ?w] by blast
  note sl = this [rule_format]
  have 1: "slice_from [demo_A, demo_B, demo_C] (2 + 1) = Inr (drop (2 + 1) [demo_A, demo_B, demo_C])"
    using sl [of 2 "[demo_A, demo_B, demo_C]"] by simp
  have l: "backupLister_List demo_ok (Namespace demo_C) ?w = Inr [demo_C, demo_A, demo_B]"
    by simp
  have s: "sort_Slice demo_ok TimeStarted_Before [demo_C, demo_A, demo_B] = [demo_A, demo_B] @ [demo_C]"
    by (simp add: demo_sort_CAB)
  have n: "Name demo_C = Name demo_C \<and> (\<forall>b\<in>set [demo_A, demo_B]. Name b \<noteq> Name demo_C)"
    by simp
  have 3: "getNextBackup demo_ok demo_C ?w = Inr None"
    using getNextBackup_never_panics [of demo_ok demo_C ?w] l s n by blast
  have ok: "sort_Slice_ok demo_ok"
    by (simp add: demo_ok_def sort_Slice_ok_insertionSort)
  have l': "backupLister_List demo_ok (Namespace demo_B) ?v = Inr [demo_C, demo_A]"
    by simp
  have n': "\<forall>b\<in>set [demo_C, demo_A]. Name b \<noteq> Name demo_B"
    by simp
  have 5: "getNextBackup demo_ok demo_B ?v = Inr None"
    using getNextBackup_never_panics [of demo_ok demo_B ?v] ok l' n' by blast
  from 1 s 3 ok 5 show ?thesis by blast
qed

section \<open>The claims about the cleanup\<close>

text \<open>
  C2, as amended. For a volume-snapshot target with a non-empty artifact path whose
  successor \<open>getNextBackup\<close> found, the run deletes, then measures the chain in the world
  the deletion left, then writes the measured size and its rendering with a \<open>Complete\<close>
  condition on the successor, whatever the deletion returned. The result is made of the
  deletion's error and the error of the target's status write only: neither the
  calculator's error nor the error of the successor's write is part of it. The
  calculator's error is logged as a warning.
\<close>

theorem performCleanBackup_successor_update:
  assumes "Spec_Mode backup = VolumeSnapshot"
    and "Status_BackupPath backup \<noteq> []"
    and "getNextBackup bm backup w = Inr (Some n)"
  shows "let d = cleanBackupMetaWithVolSnapshots bm backup w;
             derr = fst d;
             k = CalcVolSnapBackupSize bm (Spec_StorageProvider n) (snd d);
             sz = fst (fst k);
             cerr = snd (fst k);
             st = \<lparr>BackupSize = Some sz, BackupSizeReadable = Some (humanize_Bytes bm sz)\<rparr>;
             cc = \<lparr>Type = BackupComplete, Status = ConditionTrue, Reason = [], Message = []\<rparr>;
             su = StatusUpdater_Update bm n cc (Some st) (snd k);
             serr = fst su;
             c = outcome_condition bm derr;
             u = StatusUpdater_Update bm backup c None (snd su);
             uerr = fst u
         in performCleanBackup bm backup (start w) =
              (Inr (outcome_result derr uerr),
               \<lparr>world = snd u,
                trace =
                  [Call_cleanBackupMetaWithVolSnapshots backup derr] @
                  (if derr \<noteq> None
                   then [Klog (Errorf_delete_backup_failure (Name backup))] else []) @
                  [Call_CalcVolSnapBackupSize (Spec_StorageProvider n) sz cerr] @
                  (case cerr of
                     Some e \<Rightarrow> [Klog (Warningf_failed_to_parse_BackupSize sz e)]
                   | None \<Rightarrow> []) @
                  [Call_Update n cc (Some st) serr,
                   Klog (outcome_log backup derr),
                   Call_Update backup c None uerr]\<rparr>)"
proof -
  have n: "chain_successor bm backup w = Some n"
    using assms(3) by (simp add: getNextBackup_successor)
  show ?thesis
    using assms(1,2) n
    by (simp add: performCleanBackup_run updateVolumeSnapshotBackupSize_run Let_def start_def
        selected_deletion_def selected_deletion_call_def Complete_condition_def)
qed

theorem performCleanBackup_successor_update_witness:
  "Spec_Mode demo_A = VolumeSnapshot \<and> Status_BackupPath demo_A \<noteq> [] \<and>
   getNextBackup
       (demo_Manager (Some (Err ''boom'')) None
          (\<lambda>b. if Name b = ''C'' then Some (Err ''conflict'') else None) None)
       demo_A ([demo_C, demo_A, demo_B], 500) = Inr (Some demo_C) \<and>
   performCleanBackup
       (demo_Manager (Some (Err ''boom'')) None
          (\<lambda>b. if Name b = ''C'' then Some (Err ''conflict'') else None) None)
       demo_A (start ([demo_C, demo_A, demo_B], 500)) =
     (Inr (Some (Aggregate [Err ''boom''])),
      \<lparr>world = ([demo_C, demo_A, demo_B], 500),
       trace =
         [Call_cleanBackupMetaWithVolSnapshots demo_A (Some (Err ''boom'')),
          Klog (Errorf_delete_backup_failure ''A''),
          Call_CalcVolSnapBackupSize (StorageProvider ''s3'') 500 None,
          Call_Update demo_C
            \<lparr>Type = BackupComplete, Status = ConditionTrue, Reason = [], Message = []\<rparr>
            (Some \<lparr>BackupSize = Some 500, BackupSizeReadable = Some ''under 1 kB''\<rparr>)
            (Some (Err ''conflict'')),
          Klog (Errorf_clean_failed ''s3/A'' (Err ''boom'')),
          Call_Update demo_A
            \<lparr>Type = BackupFailed, Status = ConditionTrue, Reason = ''CleanBackupDataFailed'',
             Message = ''boom''\<rparr>
            None None]\<rparr>)"
proof -
  let ?bm = "demo_Manager (Some (Err ''boom'')) None
      (\<lambda>b. if Name b = ''C'' then Some (Err ''conflict'') else None) None"
  have h1: "Spec_Mode demo_A = VolumeSnapshot"
    by simp
  have h2: "Status_BackupPath demo_A \<noteq> []"
    by simp
  have h3: "getNextBackup ?bm demo_A ([demo_C, demo_A, demo_B], 500) = Inr (Some demo_C)"
    by (rule demo_getNextBackup_A)
  show ?thesis
    using performCleanBackup_successor_update [OF h1 h2 h3] h3
    by (simp add: Let_def demo_Manager_fields demo_Manager_def outcome_condition_def
        outcome_result_def outcome_log_def NewAggregate_pair)
qed

text \<open>
  Against C2 as stated, two runs. A volume-snapshot target with an empty artifact path
  and a successor in the catalog: the run stops at the path check and writes nothing on
  the successor. And a run in which the successor's status write fails: the only line
  logged is the one of the target's success.
\<close>

theorem performCleanBackup_successor_update_counterexample:
  "Spec_Mode (demo_A\<lparr>Status_BackupPath := []\<rparr>) = VolumeSnapshot \<and>
   getNextBackup demo_ok (demo_A\<lparr>Status_BackupPath := []\<rparr>) ([demo_C, demo_A, demo_B], 500) =
     Inr (Some demo_C) \<and>
   performCleanBackup demo_ok (demo_A\<lparr>Status_BackupPath := []\<rparr>)
       (start ([demo_C, demo_A, demo_B], 500)) =
     (Inr None,
      \<lparr>world = ([demo_C, demo_A, demo_B], 500),
       trace =
         [Klog Errorf_backup_path_is_empty,
          Call_Update (demo_A\<lparr>Status_BackupPath := []\<rparr>)
            \<lparr>Type = BackupFailed, Status = ConditionTrue, Reason = ''BackupPathIsEmpty'',
             Message = ''the cluster ns/A backup path is empty''\<rparr>
            None None]\<rparr>) \<and>
   performCleanBackup
       (demo_Manager None None (\<lambda>b. if Name b = ''C'' then Some (Err ''conflict'') else None) None)
       demo_A (start ([demo_C, demo_A, demo_B], 500)) =
     (Inr None,
      \<lparr>world = ([demo_C, demo_A, demo_B], 400),
       trace =
         [Call_cleanBackupMetaWithVolSnapshots demo_A None,
          Call_CalcVolSnapBackupSize (StorageProvider ''s3'') 400 None,
          Call_Update demo_C
            \<lparr>Type = BackupComplete, Status = ConditionTrue, Reason = [], Message = []\<rparr>
            (Some \<lparr>BackupSize = Some 400, BackupSizeReadable = Some ''under 1 kB''\<rparr>)
            (Some (Err ''conflict'')),
          Klog (Infof_clean_success ''s3/A''),
          Call_Update demo_A
            \<lparr>Type = BackupClean, Status = ConditionTrue, Reason = [], Message = []\<rparr>
            None None]\<rparr>) \<and>
   logs (trace (snd (performCleanBackup
       (demo_Manager None None (\<lambda>b. if Name b = ''C'' then Some (Err ''conflict'') else None) None)
       demo_A (start ([demo_C, demo_A, demo_B], 500))))) = [Infof_clean_success ''s3/A'']"
proof -
  let ?w = "([demo_C, demo_A, demo_B], 500 :: 64 word)"
  let ?T = "demo_A\<lparr>Status_BackupPath := []\<rparr>"
  let ?bm = "demo_Manager None None
      (\<lambda>b. if Name b = ''C'' then Some (Err ''conflict'') else None) None"
  have 1: "Spec_Mode ?T = VolumeSnapshot"
    by simp
  have 2: "getNextBackup demo_ok ?T ?w = Inr (Some demo_C)"
    unfolding demo_ok_def by (rule demo_getNextBackup_A)
  have 3: "performCleanBackup demo_ok ?T (start ?w) =
     (Inr None,
      \<lparr>world = ?w,
       trace =
         [Klog Errorf_backup_path_is_empty,
          Call_Update ?T
            \<lparr>Type = BackupFailed, Status = ConditionTrue, Reason = ''BackupPathIsEmpty'',
             Message = ''the cluster ns/A backup path is empty''\<rparr>
            None None]\<rparr>)"
    by (simp add: performCleanBackup_empty_path Let_def start_def BackupPathIsEmpty_condition_def
        demo_ok_def demo_Manager_fields)
  have s: "chain_successor ?bm demo_A ?w = Some demo_C"
    using demo_getNextBackup_A(1) [of None None _ 500]
    by (simp add: getNextBackup_successor)
  have 4: "performCleanBackup ?bm demo_A (start ?w) =
     (Inr None,
      \<lparr>world = ([demo_C, demo_A, demo_B], 400),
       trace =
         [Call_cleanBackupMetaWithVolSnapshots demo_A None,
          Call_CalcVolSnapBackupSize (StorageProvider ''s3'') 400 None,
          Call_Update demo_C
            \<lparr>Type = BackupComplete, Status = ConditionTrue, Reason = [], Message = []\<rparr>
            (Some \<lparr>BackupSize = Some 400, BackupSizeReadable = Some ''under 1 kB''\<rparr>)
            (Some (Err ''conflict'')),
          Klog (Infof_clean_success ''s3/A''),
          Call_Update demo_A
            \<lparr>Type = BackupClean, Status = ConditionTrue, Reason = [], Message = []\<rparr>
            None None]\<rparr>)"
    using s
    by (simp add: performCleanBackup_run updateVolumeSnapshotBackupSize_run Let_def start_def
        selected_deletion_def selected_deletion_call_def Complete_condition_def
        demo_Manager_fields demo_Manager_def outcome_condition_def outcome_result_def
        outcome_log_def)
  have 5: "logs (trace (snd (performCleanBackup ?bm demo_A (start ?w)))) =
      [Infof_clean_success ''s3/A'']"
    by (simp add: 4)
  from 1 2 3 4 5 show ?thesis
    by (intro conjI)
qed

text \<open>
  C3. With a non-empty artifact path, when the selected deletion primitive fails with
  \<open>err\<close> the run ends by writing one \<open>Failed\<close>/\<open>CleanBackupDataFailed\<close> condition on
  the target whose message is \<open>err\<close>'s text, and returns the aggregate of \<open>err\<close> and
  the error of that status write. The aggregate is never nil: it holds \<open>err\<close> first, and
  only \<open>err\<close> when the status write succeeds. No other \<open>Failed\<close> condition is written.
\<close>

theorem performCleanBackup_deletion_fails:
  assumes "Status_BackupPath backup \<noteq> []"
    and "fst (selected_deletion bm backup w) = Some err"
  shows "\<exists>pre w3.
     (let c = \<lparr>Type = BackupFailed, Status = ConditionTrue,
                Reason = ''CleanBackupDataFailed'', Message = Error bm err\<rparr>;
          u = StatusUpdater_Update bm backup c None w3;
          uerr = fst u
      in performCleanBackup bm backup (start w) =
           (Inr (NewAggregate [Some err, uerr]),
            \<lparr>world = snd u,
             trace = pre @ [Klog (Errorf_clean_failed (Status_BackupPath backup) err),
                            Call_Update backup c None uerr]\<rparr>) \<and>
         (\<forall>x\<in>set (updates pre). Type (fst (snd x)) = BackupComplete) \<and>
         NewAggregate [Some err, uerr] =
           Some (Aggregate (err # (case uerr of None \<Rightarrow> [] | Some e \<Rightarrow> [e]))) \<and>
         (uerr = None \<longrightarrow> NewAggregate [Some err, uerr] = Some (Aggregate [err])))"
proof -
  obtain pre w3 where
    run: "performCleanBackup bm backup (start w) =
       (let err = fst (selected_deletion bm backup w);
            c = outcome_condition bm err;
            u = StatusUpdater_Update bm backup c None w3
        in (Inr (outcome_result err (fst u)),
            \<lparr>world = snd u,
             trace = pre @ [Klog (outcome_log backup err), Call_Update backup c None (fst u)]\<rparr>))"
    and upd: "updates pre = [] \<or>
         (\<exists>n st serr. Spec_Mode backup = VolumeSnapshot \<and> chain_successor bm backup w = Some n \<and>
            updates pre = [(n, Complete_condition, Some st, serr)])"
    using performCleanBackup_shape [OF assms(1)] by metis
  from upd have "\<forall>x\<in>set (updates pre). Type (fst (snd x)) = BackupComplete"
    by (auto simp: Complete_condition_def)
  with run assms(2) show ?thesis
    by (intro exI [of _ pre] exI [of _ w3])
      (simp add: Let_def outcome_condition_def outcome_result_def outcome_log_def
        NewAggregate_pair)
qed

theorem performCleanBackup_deletion_fails_witness:
  "Status_BackupPath demo_A \<noteq> [] \<and>
   fst (selected_deletion (demo_Manager (Some (Err ''boom'')) None (\<lambda>b. None) None) demo_A
          ([demo_C, demo_A, demo_B], 500)) = Some (Err ''boom'') \<and>
   (\<exists>pre w3.
     (let c = \<lparr>Type = BackupFailed, Status = ConditionTrue,
                Reason = ''CleanBackupDataFailed'',
                Message = Error (demo_Manager (Some (Err ''boom'')) None (\<lambda>b. None) None)
                            (Err ''boom'')\<rparr>;
          u = StatusUpdater_Update (demo_Manager (Some (Err ''boom'')) None (\<lambda>b. None) None)
                demo_A c None w3;
          uerr = fst u
      in performCleanBackup (demo_Manager (Some (Err ''boom'')) None (\<lambda>b. None) None) demo_A
             (start ([demo_C, demo_A, demo_B], 500)) =
           (Inr (NewAggregate [Some (Err ''boom''), uerr]),
            \<lparr>world = snd u,
             trace = pre @ [Klog (Errorf_clean_failed (Status_BackupPath demo_A) (Err ''boom'')),
                            Call_Update demo_A c None uerr]\<rparr>) \<and>
         (\<forall>x\<in>set (updates pre). Type (fst (snd x)) = BackupComplete) \<and>
         NewAggregate [Some (Err ''boom''), uerr] =
           Some (Aggregate (Err ''boom'' # (case uerr of None \<Rightarrow> [] | Some e \<Rightarrow> [e]))) \<and>
         (uerr = None \<longrightarrow> NewAggregate [Some (Err ''boom''), uerr] = Some (Aggregate [Err ''boom'']))))"
proof -
  let ?bm = "demo_Manager (Some (Err ''boom'')) None (\<lambda>b. None) None"
  have h1: "Status_BackupPath demo_A \<noteq> []"
    by simp
  have h2: "fst (selected_deletion ?bm demo_A ([demo_C, demo_A, demo_B], 500)) = Some (Err ''boom'')"
    by (simp add: selected_deletion_def demo_Manager_fields)
  from h1 h2 performCleanBackup_deletion_fails [OF h1 h2] show ?thesis
    by (intro conjI)
qed

text \<open>
  C4. A record whose artifact path is empty at entry is not dispatched: the run logs one
  line, writes exactly one \<open>Failed\<close>/\<open>BackupPathIsEmpty\<close> condition on the target
  with no size update, calls no deletion primitive, and returns what the status write
  returned.
\<close>

theorem performCleanBackup_empty_path_short_circuit:
  assumes "Status_BackupPath backup = []"
  shows "let c = \<lparr>Type = BackupFailed, Status = ConditionTrue, Reason = ''BackupPathIsEmpty'',
                  Message = ''the cluster '' @ String bm @ '' backup path is empty''\<rparr>;
             u = StatusUpdater_Update bm backup c None w;
             run = performCleanBackup bm backup (start w)
         in fst run = Inr (fst u) \<and> world (snd run) = snd u \<and>
            trace (snd run) =
              [Klog Errorf_backup_path_is_empty, Call_Update backup c None (fst u)] \<and>
            updates (trace (snd run)) = [(backup, c, None, fst u)] \<and>
            deletions (trace (snd run)) = []"
  by (simp add: performCleanBackup_empty_path [OF assms] Let_def start_def
      BackupPathIsEmpty_condition_def)

theorem performCleanBackup_empty_path_short_circuit_witness:
  "Status_BackupPath (demo_A\<lparr>Status_BackupPath := []\<rparr>) = [] \<and>
   performCleanBackup demo_ok (demo_A\<lparr>Status_BackupPath := []\<rparr>)
       (start ([demo_C, demo_A, demo_B], 500)) =
     (Inr None,
      \<lparr>world = ([demo_C, demo_A, demo_B], 500),
       trace = [Klog Errorf_backup_path_is_empty,
                Call_Update (demo_A\<lparr>Status_BackupPath := []\<rparr>)
                  \<lparr>Type = BackupFailed, Status = ConditionTrue, Reason = ''BackupPathIsEmpty'',
                   Message = ''the cluster ns/A backup path is empty''\<rparr> None None]\<rparr>)"
proof -
  have h: "Status_BackupPath (demo_A\<lparr>Status_BackupPath := []\<rparr>) = []"
    by simp
  show ?thesis
    using performCleanBackup_empty_path_short_circuit
      [OF h, of demo_ok "([demo_C, demo_A, demo_B], 500)"]
    by (simp add: Let_def demo_ok_def demo_Manager_fields prod_eq_iff state.equality)
qed

text \<open>
  C5. With a non-empty artifact path the run calls exactly one deletion primitive, in
  the starting world: the volume-snapshot deletion when the mode is \<open>VolumeSnapshot\<close>;
  otherwise the dedicated deletion when the tool descriptor is present; otherwise the
  generic deletion on the stored artifact path with the options derived from the
  storage-location descriptor.
\<close>

theorem performCleanBackup_dispatch:
  assumes "Status_BackupPath backup \<noteq> []"
  shows "let tr = trace (snd (performCleanBackup bm backup (start w))) in
     (Spec_Mode backup = VolumeSnapshot \<longrightarrow>
        deletions tr = [Call_cleanBackupMetaWithVolSnapshots backup
                          (fst (cleanBackupMetaWithVolSnapshots bm backup w))]) \<and>
     (Spec_Mode backup \<noteq> VolumeSnapshot \<and> Spec_BR backup \<noteq> None \<longrightarrow>
        deletions tr = [Call_CleanBRRemoteBackupData backup
                          (fst (CleanBRRemoteBackupData bm backup w))]) \<and>
     (Spec_Mode backup \<noteq> VolumeSnapshot \<and> Spec_BR backup = None \<longrightarrow>
        deletions tr = [Call_cleanRemoteBackupData (Status_BackupPath backup)
                          (GetOptions bm (Spec_StorageProvider backup))
                          (fst (cleanRemoteBackupData bm (Status_BackupPath backup)
                                  (GetOptions bm (Spec_StorageProvider backup)) w))]) \<and>
     deletions tr = [selected_deletion_call bm backup (fst (selected_deletion bm backup w))]"
proof -
  obtain pre w3 where
    run: "performCleanBackup bm backup (start w) =
       (let err = fst (selected_deletion bm backup w);
            c = outcome_condition bm err;
            u = StatusUpdater_Update bm backup c None w3
        in (Inr (outcome_result err (fst u)),
            \<lparr>world = snd u,
             trace = pre @ [Klog (outcome_log backup err), Call_Update backup c None (fst u)]\<rparr>))"
    and del: "deletions pre =
        [selected_deletion_call bm backup (fst (selected_deletion bm backup w))]"
    using performCleanBackup_shape [OF assms] by metis
  have "deletions (trace (snd (performCleanBackup bm backup (start w)))) =
      [selected_deletion_call bm backup (fst (selected_deletion bm backup w))]"
    by (simp add: run Let_def del)
  then show ?thesis
    by (simp add: Let_def selected_deletion_call_def selected_deletion_def)
qed

theorem performCleanBackup_dispatch_witness:
  "Status_BackupPath demo_A \<noteq> [] \<and>
   Spec_Mode demo_A = VolumeSnapshot \<and>
   deletions (trace (snd (performCleanBackup demo_ok demo_A (start ([demo_C, demo_A, demo_B], 500))))) =
     [Call_cleanBackupMetaWithVolSnapshots demo_A None] \<and>
   Spec_Mode (demo_B\<lparr>Spec_BR := Some (BRConfig ''br'')\<rparr>) \<noteq> VolumeSnapshot \<and>
   Spec_BR (demo_B\<lparr>Spec_BR := Some (BRConfig ''br'')\<rparr>) \<noteq> None \<and>
   deletions (trace (snd (performCleanBackup demo_ok (demo_B\<lparr>Spec_BR := Some (BRConfig ''br'')\<rparr>)
       (start ([demo_C, demo_A, demo_B], 500))))) =
     [Call_CleanBRRemoteBackupData (demo_B\<lparr>Spec_BR := Some (BRConfig ''br'')\<rparr>) None] \<and>
   Spec_Mode demo_B \<noteq> VolumeSnapshot \<and> Spec_BR demo_B = None \<and>
   deletions (trace (snd (performCleanBackup demo_ok demo_B (start ([demo_C, demo_A, demo_B], 500))))) =
     [Call_cleanRemoteBackupData ''s3/B'' [''s3''] None]"
proof -
  let ?w = "([demo_C, demo_A, demo_B], 500 :: 64 word)"
  let ?B = "demo_B\<lparr>Spec_BR := Some (BRConfig ''br'')\<rparr>"
  have a: "Status_BackupPath demo_A \<noteq> []"
    by simp
  have 1: "deletions (trace (snd (performCleanBackup demo_ok demo_A (start ?w)))) =
     [Call_cleanBackupMetaWithVolSnapshots demo_A None]"
    using performCleanBackup_dispatch [OF a, of demo_ok ?w]
    by (simp add: Let_def demo_ok_def demo_Manager_fields)
  have b: "Status_BackupPath ?B \<noteq> []"
    by simp
  have 2: "deletions (trace (snd (performCleanBackup demo_ok ?B (start ?w)))) =
     [Call_CleanBRRemoteBackupData ?B None]"
    using performCleanBackup_dispatch [OF b, of demo_ok ?w]
    by (simp add: Let_def demo_ok_def demo_Manager_fields)
  have c: "Status_BackupPath demo_B \<noteq> []"
    by simp
  have 3: "deletions (trace (snd (performCleanBackup demo_ok demo_B (start ?w)))) =
     [Call_cleanRemoteBackupData ''s3/B'' [''s3''] None]"
    using performCleanBackup_dispatch [OF c, of demo_ok ?w]
    by (simp add: Let_def demo_ok_def demo_Manager_fields)
  from a 1 2 3 show ?thesis
    by simp
qed

text \<open>
  C6. For a volume-snapshot target in a world where the listing fails, \<open>getNextBackup\<close>
  returns none without a panic, and the run is the target's own: with an empty path the
  short circuit of C4; otherwise one log line that the next backup is nil, the deletion,
  and the report of the deletion's outcome. The result is made of the deletion's error
  and the status write's error only; the lister's error appears nowhere in it.
\<close>

theorem performCleanBackup_listing_fails:
  assumes "backupLister_List bm (Namespace backup) w = Inl lerr"
    and "Spec_Mode backup = VolumeSnapshot"
  shows "getNextBackup bm backup w = Inr None \<and>
    (if Status_BackupPath backup = [] then
       (let c = BackupPathIsEmpty_condition bm;
            u = StatusUpdater_Update bm backup c None w
        in performCleanBackup bm backup (start w) =
             (Inr (fst u),
              \<lparr>world = snd u,
               trace = [Klog Errorf_backup_path_is_empty, Call_Update backup c None (fst u)]\<rparr>))
     else
       (let d = cleanBackupMetaWithVolSnapshots bm backup w;
            err = fst d;
            c = outcome_condition bm err;
            u = StatusUpdater_Update bm backup c None (snd d)
        in performCleanBackup bm backup (start w) =
             (Inr (outcome_result err (fst u)),
              \<lparr>world = snd u,
               trace = [Klog Errorf_next_backup_is_nil,
                        Call_cleanBackupMetaWithVolSnapshots backup err] @
                       (if err \<noteq> None
                        then [Klog (Errorf_delete_backup_failure (Name backup))] else []) @
                       [Klog (outcome_log backup err), Call_Update backup c None (fst u)]\<rparr>)))"
proof -
  have n: "chain_successor bm backup w = None"
    using assms(1) by (simp add: chain_successor_def)
  show ?thesis
  proof (cases "Status_BackupPath backup = []")
    case True
    then show ?thesis
      using assms(1)
      by (simp add: performCleanBackup_empty_path Let_def start_def getNextBackup_eq)
  next
    case False
    then show ?thesis
      using assms n
      by (simp add: performCleanBackup_run Let_def start_def getNextBackup_successor
          selected_deletion_def selected_deletion_call_def)
  qed
qed

theorem performCleanBackup_listing_fails_witness:
  "backupLister_List (demo_Manager None None (\<lambda>b. None) (Some (Err ''list'')))
       (Namespace demo_A) ([demo_C, demo_A, demo_B], 500) = Inl (Err ''list'') \<and>
   Spec_Mode demo_A = VolumeSnapshot \<and>
   getNextBackup (demo_Manager None None (\<lambda>b. None) (Some (Err ''list''))) demo_A
       ([demo_C, demo_A, demo_B], 500) = Inr None \<and>
   performCleanBackup (demo_Manager None None (\<lambda>b. None) (Some (Err ''list''))) demo_A
       (start ([demo_C, demo_A, demo_B], 500)) =
     (Inr None,
      \<lparr>world = ([demo_C, demo_A, demo_B], 400),
       trace = [Klog Errorf_next_backup_is_nil,
                Call_cleanBackupMetaWithVolSnapshots demo_A None,
                Klog (Infof_clean_success ''s3/A''),
                Call_Update demo_A
                  \<lparr>Type = BackupClean, Status = ConditionTrue, Reason = [], Message = []\<rparr>
                  None None]\<rparr>)"
proof -
  let ?bm = "demo_Manager None None (\<lambda>b. None) (Some (Err ''list''))"
  have h1: "backupLister_List ?bm (Namespace demo_A) ([demo_C, demo_A, demo_B], 500) =
      Inl (Err ''list'')"
    by (simp add: demo_List)
  have h2: "Spec_Mode demo_A = VolumeSnapshot"
    by simp
  show ?thesis
    using performCleanBackup_listing_fails [OF h1 h2] h1
    by (simp add: Let_def demo_Manager_fields outcome_condition_def outcome_result_def
        outcome_log_def)
qed

text \<open>
  C7. When the size calculator returns an error together with a size \<open>sz\<close> (zero or
  not), \<open>updateVolumeSnapshotBackupSize\<close> logs a warning and goes on: it writes a
  \<open>Complete\<close> condition together with \<open>sz\<close> and its human-readable rendering on the
  record, and its result is the result of that status write.
\<close>

theorem updateVolumeSnapshotBackupSize_calc_error:
  assumes "fst (CalcVolSnapBackupSize bm (Spec_StorageProvider n) w) = (sz, Some e)"
  shows "let st = \<lparr>BackupSize = Some sz, BackupSizeReadable = Some (humanize_Bytes bm sz)\<rparr>;
             c = \<lparr>Type = BackupComplete, Status = ConditionTrue, Reason = [], Message = []\<rparr>;
             u = StatusUpdater_Update bm n c (Some st)
                   (snd (CalcVolSnapBackupSize bm (Spec_StorageProvider n) w))
         in updateVolumeSnapshotBackupSize bm n (start w) =
              (fst u,
               \<lparr>world = snd u,
                trace = [Call_CalcVolSnapBackupSize (Spec_StorageProvider n) sz (Some e),
                         Klog (Warningf_failed_to_parse_BackupSize sz e),
                         Call_Update n c (Some st) (fst u)]\<rparr>)"
  using assms
  by (simp add: updateVolumeSnapshotBackupSize_run Let_def start_def Complete_condition_def)

theorem updateVolumeSnapshotBackupSize_calc_error_witness:
  "fst (CalcVolSnapBackupSize (demo_Manager None (Some (Err ''calc'')) (\<lambda>b. None) None)
          (Spec_StorageProvider demo_C) ([demo_C, demo_A, demo_B], 500)) = (0, Some (Err ''calc'')) \<and>
   updateVolumeSnapshotBackupSize (demo_Manager None (Some (Err ''calc'')) (\<lambda>b. None) None) demo_C
       (start ([demo_C, demo_A, demo_B], 500)) =
     (None,
      \<lparr>world = ([demo_C, demo_A, demo_B], 500),
       trace = [Call_CalcVolSnapBackupSize (StorageProvider ''s3'') 0 (Some (Err ''calc'')),
                Klog (Warningf_failed_to_parse_BackupSize 0 (Err ''calc'')),
                Call_Update demo_C
                  \<lparr>Type = BackupComplete, Status = ConditionTrue, Reason = [], Message = []\<rparr>
                  (Some \<lparr>BackupSize = Some 0, BackupSizeReadable = Some ''under 1 kB''\<rparr>)
                  None]\<rparr>)"
proof -
  let ?bm = "demo_Manager None (Some (Err ''calc'')) (\<lambda>b. None) None"
  have h: "fst (CalcVolSnapBackupSize ?bm (Spec_StorageProvider demo_C)
      ([demo_C, demo_A, demo_B], 500)) = (0, Some (Err ''calc''))"
    by (simp add: demo_Manager_fields)
  show ?thesis
    using updateVolumeSnapshotBackupSize_calc_error [OF h]
    by (simp add: Let_def demo_Manager_fields demo_Manager_def)
qed

text \<open>
  C8. Every run returns, and its status writes are: at most one write on the chain
  successor (a \<open>Complete\<close> condition with a size update, only for a volume-snapshot
  target whose successor \<open>getNextBackup\<close> found), followed by exactly one write on the
  target, which carries no size update and one of the three outcome conditions
  \<open>Failed\<close>/\<open>BackupPathIsEmpty\<close>, \<open>Failed\<close>/\<open>CleanBackupDataFailed\<close> or \<open>Clean\<close>.
  When the listed names are distinct, as they are within a namespace, the successor is a
  record other than the target.
\<close>

theorem performCleanBackup_one_outcome_condition:
  "\<exists>r s' succ_writes oc uerr.
     performCleanBackup bm backup (start w) = (Inr r, s') \<and>
     updates (trace s') = succ_writes @ [(backup, oc, None, uerr)] \<and>
     Status oc = ConditionTrue \<and>
     (Type oc = BackupFailed \<and> Reason oc = ''BackupPathIsEmpty'' \<or>
      Type oc = BackupFailed \<and> Reason oc = ''CleanBackupDataFailed'' \<or>
      Type oc = BackupClean \<and> Reason oc = []) \<and>
     (succ_writes = [] \<or>
      (\<exists>n st serr.
         succ_writes =
           [(n, \<lparr>Type = BackupComplete, Status = ConditionTrue, Reason = [], Message = []\<rparr>,
             Some st, serr)] \<and>
         Spec_Mode backup = VolumeSnapshot \<and> getNextBackup bm backup w = Inr (Some n) \<and>
         (\<forall>bks. sort_Slice_ok bm \<and> backupLister_List bm (Namespace backup) w = Inr bks \<and>
                distinct (map Name bks) \<longrightarrow> Name n \<noteq> Name backup)))"
proof (cases "Status_BackupPath backup = []")
  case True
  let ?c = "BackupPathIsEmpty_condition bm"
  let ?u = "StatusUpdater_Update bm backup ?c None w"
  have "performCleanBackup bm backup (start w) =
      (Inr (fst ?u),
       \<lparr>world = snd ?u,
        trace = [Klog Errorf_backup_path_is_empty, Call_Update backup ?c None (fst ?u)]\<rparr>)"
    using True by (simp add: performCleanBackup_empty_path Let_def start_def)
  then show ?thesis
    by (intro exI [of _ "fst ?u"]
        exI [of _ "\<lparr>world = snd ?u,
          trace = [Klog Errorf_backup_path_is_empty, Call_Update backup ?c None (fst ?u)]\<rparr>"]
        exI [of _ "[]"] exI [of _ ?c] exI [of _ "fst ?u"])
      (simp add: BackupPathIsEmpty_condition_def)
next
  case False
  obtain pre w3 where
    run: "performCleanBackup bm backup (start w) =
       (let err = fst (selected_deletion bm backup w);
            c = outcome_condition bm err;
            u = StatusUpdater_Update bm backup c None w3
        in (Inr (outcome_result err (fst u)),
            \<lparr>world = snd u,
             trace = pre @ [Klog (outcome_log backup err), Call_Update backup c None (fst u)]\<rparr>))"
    and upd: "updates pre = [] \<or>
         (\<exists>n st serr. Spec_Mode backup = VolumeSnapshot \<and> chain_successor bm backup w = Some n \<and>
            updates pre = [(n, Complete_condition, Some st, serr)])"
    using performCleanBackup_shape [OF False] by metis
  let ?err = "fst (selected_deletion bm backup w)"
  let ?c = "outcome_condition bm ?err"
  let ?u = "StatusUpdater_Update bm backup ?c None w3"
  have oc: "Status ?c = ConditionTrue \<and>
     (Type ?c = BackupFailed \<and> Reason ?c = ''BackupPathIsEmpty'' \<or>
      Type ?c = BackupFailed \<and> Reason ?c = ''CleanBackupDataFailed'' \<or>
      Type ?c = BackupClean \<and> Reason ?c = [])"
    by (simp add: outcome_condition_def split: option.splits)
  have sw: "updates pre = [] \<or>
      (\<exists>n st serr.
         updates pre =
           [(n, \<lparr>Type = BackupComplete, Status = ConditionTrue, Reason = [], Message = []\<rparr>,
             Some st, serr)] \<and>
         Spec_Mode backup = VolumeSnapshot \<and> getNextBackup bm backup w = Inr (Some n) \<and>
         (\<forall>bks. sort_Slice_ok bm \<and> backupLister_List bm (Namespace backup) w = Inr bks \<and>
                distinct (map Name bks) \<longrightarrow> Name n \<noteq> Name backup))"
    using upd
    by (auto simp: Complete_condition_def getNextBackup_successor
        dest: chain_successor_other_name)
  have tr: "performCleanBackup bm backup (start w) =
      (Inr (outcome_result ?err (fst ?u)),
       \<lparr>world = snd ?u,
        trace = pre @ [Klog (outcome_log backup ?err), Call_Update backup ?c None (fst ?u)]\<rparr>)"
    using run by (simp add: Let_def)
  have up: "updates (pre @ [Klog (outcome_log backup ?err), Call_Update backup ?c None (fst ?u)]) =
      updates pre @ [(backup, ?c, None, fst ?u)]"
    by simp
  from tr up oc sw show ?thesis
    by (intro exI [of _ "outcome_result ?err (fst ?u)"]
        exI [of _ "\<lparr>world = snd ?u,
          trace = pre @ [Klog (outcome_log backup ?err), Call_Update backup ?c None (fst ?u)]\<rparr>"]
        exI [of _ "updates pre"] exI [of _ ?c] exI [of _ "fst ?u"]) simp
qed

theorem performCleanBackup_one_outcome_condition_witness:
  "sort_Slice_ok demo_ok \<and>
   backupLister_List demo_ok (Namespace demo_A) ([demo_C, demo_A, demo_B], 500) =
     Inr [demo_C, demo_A, demo_B] \<and>
   distinct (map Name [demo_C, demo_A, demo_B]) \<and>
   (\<exists>r s' succ_writes oc uerr.
     performCleanBackup demo_ok demo_A (start ([demo_C, demo_A, demo_B], 500)) = (Inr r, s') \<and>
     updates (trace s') = succ_writes @ [(demo_A, oc, None, uerr)] \<and>
     Status oc = ConditionTrue \<and>
     (Type oc = BackupFailed \<and> Reason oc = ''BackupPathIsEmpty'' \<or>
      Type oc = BackupFailed \<and> Reason oc = ''CleanBackupDataFailed'' \<or>
      Type oc = BackupClean \<and> Reason oc = []) \<and>
     (succ_writes = [] \<or>
      (\<exists>n st serr.
         succ_writes =
           [(n, \<lparr>Type = BackupComplete, Status = ConditionTrue, Reason = [], Message = []\<rparr>,
             Some st, serr)] \<and>
         Spec_Mode demo_A = VolumeSnapshot \<and>
         getNextBackup demo_ok demo_A ([demo_C, demo_A, demo_B], 500) = Inr (Some n) \<and>
         Name n \<noteq> Name demo_A)))"
proof -
  let ?w = "([demo_C, demo_A, demo_B], 500 :: 64 word)"
  have ok: "sort_Slice_ok demo_ok"
    by (simp add: demo_ok_def sort_Slice_ok_insertionSort)
  have l: "backupLister_List demo_ok (Namespace demo_A) ?w = Inr [demo_C, demo_A, demo_B]"
    by simp
  have d: "distinct (map Name [demo_C, demo_A, demo_B])"
    by simp
  from performCleanBackup_one_outcome_condition [of demo_ok demo_A ?w]
  obtain r s' succ_writes oc uerr where
    1: "performCleanBackup demo_ok demo_A (start ?w) = (Inr r, s')" and
    2: "updates (trace s') = succ_writes @ [(demo_A, oc, None, uerr)]" and
    3: "Status oc = ConditionTrue" and
    4: "Type oc = BackupFailed \<and> Reason oc = ''BackupPathIsEmpty'' \<or>
        Type oc = BackupFailed \<and> Reason oc = ''CleanBackupDataFailed'' \<or>
        Type oc = BackupClean \<and> Reason oc = []" and
    5: "succ_writes = [] \<or>
      (\<exists>n st serr.
         succ_writes =
           [(n, \<lparr>Type = BackupComplete, Status = ConditionTrue, Reason = [], Message = []\<rparr>,
             Some st, serr)] \<and>
         Spec_Mode demo_A = VolumeSnapshot \<and> getNextBackup demo_ok demo_A ?w = Inr (Some n) \<and>
         (\<forall>bks. sort_Slice_ok demo_ok \<and>
                backupLister_List demo_ok (Namespace demo_A) ?w = Inr bks \<and>
                distinct (map Name bks) \<longrightarrow> Name n \<noteq> Name demo_A))"
    by blast
  from 5 ok l d have 6: "succ_writes = [] \<or>
      (\<exists>n st serr.
         succ_writes =
           [(n, \<lparr>Type = BackupComplete, Status = ConditionTrue, Reason = [], Message = []\<rparr>,
             Some st, serr)] \<and>
         Spec_Mode demo_A = VolumeSnapshot \<and> getNextBackup demo_ok demo_A ?w = Inr (Some n) \<and>
         Name n \<noteq> Name demo_A)"
    by blast
  from 1 2 3 4 6 have "\<exists>r s' succ_writes oc uerr.
     performCleanBackup demo_ok demo_A (start ?w) = (Inr r, s') \<and>
     updates (trace s') = succ_writes @ [(demo_A, oc, None, uerr)] \<and>
     Status oc = ConditionTrue \<and>
     (Type oc = BackupFailed \<and> Reason oc = ''BackupPathIsEmpty'' \<or>
      Type oc = BackupFailed \<and> Reason oc = ''CleanBackupDataFailed'' \<or>
      Type oc = BackupClean \<and> Reason oc = []) \<and>
     (succ_writes = [] \<or>
      (\<exists>n st serr.
         succ_writes =
           [(n, \<lparr>Type = BackupComplete, Status = ConditionTrue, Reason = [], Message = []\<rparr>,
             Some st, serr)] \<and>
         Spec_Mode demo_A = VolumeSnapshot \<and>
         getNextBackup demo_ok demo_A ?w = Inr (Some n) \<and>
         Name n \<noteq> Name demo_A))"
    by blast
  with ok l d show ?thesis
    by (intro conjI)
qed

text \<open>
  C9. With a non-empty artifact path, when the selected deletion primitive succeeds the
  run ends by writing a \<open>Clean\<close> condition with empty reason and message on the target
  and returns exactly the result of that status write. The only status write before it,
  if any, is the \<open>Complete\<close> write on the successor.
\<close>

theorem performCleanBackup_deletion_succeeds:
  assumes "Status_BackupPath backup \<noteq> []"
    and "fst (selected_deletion bm backup w) = None"
  shows "\<exists>pre w3.
     (let c = \<lparr>Type = BackupClean, Status = ConditionTrue, Reason = [], Message = []\<rparr>;
          u = StatusUpdater_Update bm backup c None w3
      in performCleanBackup bm backup (start w) =
           (Inr (fst u),
            \<lparr>world = snd u,
             trace = pre @ [Klog (Infof_clean_success (Status_BackupPath backup)),
                            Call_Update backup c None (fst u)]\<rparr>) \<and>
         (\<forall>x\<in>set (updates pre). Type (fst (snd x)) = BackupComplete))"
proof -
  obtain pre w3 where
    run: "performCleanBackup bm backup (start w) =
       (let err = fst (selected_deletion bm backup w);
            c = outcome_condition bm err;
            u = StatusUpdater_Update bm backup c None w3
        in (Inr (outcome_result err (fst u)),
            \<lparr>world = snd u,
             trace = pre @ [Klog (outcome_log backup err), Call_Update backup c None (fst u)]\<rparr>))"
    and upd: "updates pre = [] \<or>
         (\<exists>n st serr. Spec_Mode backup = VolumeSnapshot \<and> chain_successor bm backup w = Some n \<and>
            updates pre = [(n, Complete_condition, Some st, serr)])"
    using performCleanBackup_shape [OF assms(1)] by metis
  from upd have "\<forall>x\<in>set (updates pre). Type (fst (snd x)) = BackupComplete"
    by (auto simp: Complete_condition_def)
  with run assms(2) show ?thesis
    by (intro exI [of _ pre] exI [of _ w3])
      (simp add: Let_def outcome_condition_def outcome_result_def outcome_log_def)
qed

theorem performCleanBackup_deletion_succeeds_witness:
  "Status_BackupPath demo_B \<noteq> [] \<and>
   fst (selected_deletion demo_ok demo_B ([demo_C, demo_A, demo_B], 500)) = None \<and>
   (\<exists>pre w3.
     (let c = \<lparr>Type = BackupClean, Status = ConditionTrue, Reason = [], Message = []\<rparr>;
          u = StatusUpdater_Update demo_ok demo_B c None w3
      in performCleanBackup demo_ok demo_B (start ([demo_C, demo_A, demo_B], 500)) =
           (Inr (fst u),
            \<lparr>world = snd u,
             trace = pre @ [Klog (Infof_clean_success (Status_BackupPath demo_B)),
                            Call_Update demo_B c None (fst u)]\<rparr>) \<and>
         (\<forall>x\<in>set (updates pre). Type (fst (snd x)) = BackupComplete)))"
proof -
  have h1: "Status_BackupPath demo_B \<noteq> []"
    by simp
  have h2: "fst (selected_deletion demo_ok demo_B ([demo_C, demo_A, demo_B], 500)) = None"
    by (simp add: selected_deletion_def demo_ok_def demo_Manager_fields)
  from h1 h2 performCleanBackup_deletion_succeeds [OF h1 h2] show ?thesis
    by (intro conjI)
qed

end
